theory Spec2Isabelle
  imports Main
begin

section \<open>Strings and JavaScript values\<close>

text \<open>
  A JavaScript string is modelled as a \<^typ>\<open>string\<close>: the list of the bytes of its UTF-8
  encoding. The character classes the program tests (\<open>[0-9]\<close>, \<open>[6-9]\<close>, \<open>+\<close>, \<open>\D\<close>)
  are ASCII; every byte of a character outside ASCII lies outside them, as the character
  does.
\<close>

definition is_digit :: "char \<Rightarrow> bool" where
  "is_digit c = (c \<in> set ''0123456789'')"

text \<open>
  The white space of
  \<open>String.prototype.trim\<close> and of the regular expression class \<open>\s\<close> is TAB, LF, VT, FF,
  CR, SPACE, U+00A0, U+1680, U+2000 to U+200A, U+2028, U+2029, U+202F, U+205F, U+3000 and
  U+FEFF, listed here by encoding.
\<close>

definition whitespace :: "string list" where
  "whitespace =
     [[CHR 0x09], [CHR 0x0A], [CHR 0x0B], [CHR 0x0C], [CHR 0x0D], [CHR 0x20],
      [CHR 0xC2, CHR 0xA0],
      [CHR 0xE1, CHR 0x9A, CHR 0x80],
      [CHR 0xE2, CHR 0x80, CHR 0x80], [CHR 0xE2, CHR 0x80, CHR 0x81],
      [CHR 0xE2, CHR 0x80, CHR 0x82], [CHR 0xE2, CHR 0x80, CHR 0x83],
      [CHR 0xE2, CHR 0x80, CHR 0x84], [CHR 0xE2, CHR 0x80, CHR 0x85],
      [CHR 0xE2, CHR 0x80, CHR 0x86], [CHR 0xE2, CHR 0x80, CHR 0x87],
      [CHR 0xE2, CHR 0x80, CHR 0x88], [CHR 0xE2, CHR 0x80, CHR 0x89],
      [CHR 0xE2, CHR 0x80, CHR 0x8A],
      [CHR 0xE2, CHR 0x80, CHR 0xA8], [CHR 0xE2, CHR 0x80, CHR 0xA9],
      [CHR 0xE2, CHR 0x80, CHR 0xAF],
      [CHR 0xE2, CHR 0x81, CHR 0x9F],
      [CHR 0xE3, CHR 0x80, CHR 0x80],
      [CHR 0xEF, CHR 0xBB, CHR 0xBF]]"

text \<open>Removes, repeatedly, whichever of the given non-empty words the string starts with.\<close>

function strip_prefixes :: "string list \<Rightarrow> string \<Rightarrow> string" where
  "strip_prefixes ws s =
     (case find (\<lambda>w. w \<noteq> [] \<and> take (length w) s = w) ws of
        None \<Rightarrow> s
      | Some w \<Rightarrow> strip_prefixes ws (drop (length w) s))"
  by pat_completeness auto
termination
proof (relation "measure (\<lambda>(ws, s). length s)")
  show "wf (measure (\<lambda>(ws, s). length s))" by simp
next
  fix ws :: "string list" and s w :: string
  assume "find (\<lambda>w. w \<noteq> [] \<and> take (length w) s = w) ws = Some w"
  then have w: "w \<noteq> []" and t: "take (length w) s = w"
    by (auto simp: find_Some_iff)
  have "length w \<le> length s"
    using arg_cong [OF t, of length] by simp
  then show "((ws, drop (length w) s), (ws, s)) \<in> measure (\<lambda>(ws, s). length s)"
    using w by (cases w) auto
qed

declare strip_prefixes.simps [simp del]

text \<open>\<open>String.prototype.trim\<close>: white space is removed at both ends.\<close>

definition trim :: "string \<Rightarrow> string" where
  "trim s = rev (strip_prefixes (map rev whitespace) (rev (strip_prefixes whitespace s)))"

section \<open>Phone normalisation (sms-server.js, normalizePhone)\<close>

text \<open>The result object \<open>{ok: true, value}\<close> or \<open>{ok: false, reason}\<close>.\<close>

datatype PhoneResult = Ok string | Rejected string

fun is_ok :: "PhoneResult \<Rightarrow> bool" where
  "is_ok (Ok v) = True"
| "is_ok (Rejected r) = False"

text \<open>\<open>String(raw).replace(/[^0-9+]/g, "")\<close>: every character that is neither a digit
  nor a plus sign is deleted; every plus sign stays, wherever it stands.\<close>

definition strip_chars :: "string \<Rightarrow> string" where
  "strip_chars raw = filter (\<lambda>c. is_digit c \<or> c = CHR ''+'') raw"

text \<open>\<open>/^[0-9]{10,15}$/\<close>\<close>

definition matches_10_15_digits :: "string \<Rightarrow> bool" where
  "matches_10_15_digits s = (list_all is_digit s \<and> 10 \<le> length s \<and> length s \<le> 15)"

text \<open>\<open>/^[6-9][0-9]{9}$/\<close>\<close>

definition matches_mobile :: "string \<Rightarrow> bool" where
  "matches_mobile s =
     (case s of
        [] \<Rightarrow> False
      | c # r \<Rightarrow> c \<in> set ''6789'' \<and> list_all is_digit r \<and> length r = 9)"

text \<open>\<open>cleaned.startsWith("+")\<close>\<close>

definition startsWithPlus :: "string \<Rightarrow> bool" where
  "startsWithPlus s = (case s of [] \<Rightarrow> False | c # r \<Rightarrow> c = CHR ''+'')"

text \<open>\<open>cleaned.replace(/^0+/, "")\<close>\<close>

definition strip_leading_zeros :: "string \<Rightarrow> string" where
  "strip_leading_zeros s = dropWhile (\<lambda>c. c = CHR ''0'') s"

definition normalizePhone :: "string \<Rightarrow> PhoneResult" where
  "normalizePhone raw =
     (if raw = [] then Rejected ''Empty phone''
      else
        let cleaned = trim (strip_chars raw) in
        if startsWithPlus cleaned then
          (let digits = drop 1 cleaned in
           if matches_10_15_digits digits then Ok cleaned
           else Rejected ''Invalid E.164 format'')
        else
          let digitsOnly = strip_leading_zeros cleaned in
          if matches_mobile digitsOnly then Ok (''+91'' @ digitsOnly)
          else if matches_10_15_digits digitsOnly then
            Rejected ''Ambiguous country code; include +<country_code>''
          else Rejected ''Unrecognized phone pattern'')"

text \<open>The value of the local variable \<open>cleaned\<close> for an input.\<close>

definition cleaned_of :: "string \<Rightarrow> string" where
  "cleaned_of raw = trim (strip_chars raw)"

text \<open>
  The stripping step as the specification words it: every character other than digits
  and a single leading plus sign is deleted, so a plus sign survives only in front.
\<close>

definition spec_strip :: "string \<Rightarrow> string" where
  "spec_strip raw =
     (case strip_chars raw of
        [] \<Rightarrow> []
      | c # r \<Rightarrow> c # filter is_digit r)"

section \<open>Facts about the normaliser\<close>

lemma strip_prefixes_id:
  assumes "\<And>w. w \<in> set ws \<Longrightarrow> w \<noteq> [] \<Longrightarrow> s \<noteq> [] \<Longrightarrow> hd w \<noteq> hd s"
  shows "strip_prefixes ws s = s"
proof -
  have "\<not> (w \<noteq> [] \<and> take (length w) s = w)" if "w \<in> set ws" for w
  proof
    assume h: "w \<noteq> [] \<and> take (length w) s = w"
    then have ne: "s \<noteq> []" by auto
    have "hd (take (length w) s) = hd s"
      using h ne by (cases s; cases w) auto
    then have "hd w = hd s" using h by simp
    then show False using assms [OF that] h ne by simp
  qed
  then have "find (\<lambda>w. w \<noteq> [] \<and> take (length w) s = w) ws = None"
    by (simp add: find_None_iff)
  then show ?thesis by (subst strip_prefixes.simps) simp
qed

definition phone_char :: "char \<Rightarrow> bool" where
  "phone_char c = (is_digit c \<or> c = CHR ''+'')"

lemma whitespace_heads: "w \<in> set whitespace \<Longrightarrow> \<not> phone_char (hd w)"
  by (auto simp: whitespace_def phone_char_def is_digit_def)

lemma whitespace_lasts: "w \<in> set (map rev whitespace) \<Longrightarrow> \<not> phone_char (hd w)"
  by (auto simp: whitespace_def phone_char_def is_digit_def)

lemma trim_phone_chars:
  assumes "\<forall>c \<in> set s. phone_char c"
  shows "trim s = s"
proof -
  have a: "strip_prefixes whitespace s = s"
  proof (rule strip_prefixes_id)
    fix w assume "w \<in> set whitespace" and "s \<noteq> []"
    then show "hd w \<noteq> hd s"
      using assms whitespace_heads [of w] by (metis hd_in_set)
  qed
  have b: "strip_prefixes (map rev whitespace) (rev s) = rev s"
  proof (rule strip_prefixes_id)
    fix w assume "w \<in> set (map rev whitespace)" and "rev s \<noteq> []"
    then show "hd w \<noteq> hd (rev s)"
      using assms whitespace_lasts [of w] by (metis hd_in_set set_rev)
  qed
  show ?thesis by (simp add: trim_def a b)
qed

lemma trim_strip_chars: "trim (strip_chars raw) = strip_chars raw"
  by (rule trim_phone_chars) (simp add: strip_chars_def phone_char_def)

lemma cleaned_of_eq: "cleaned_of raw = strip_chars raw"
  by (simp add: cleaned_of_def trim_strip_chars)

lemma strip_chars_idem: "strip_chars (strip_chars raw) = strip_chars raw"
  by (simp add: strip_chars_def)

lemma strip_chars_nonempty: "strip_chars raw \<noteq> [] \<Longrightarrow> raw \<noteq> []"
  by (auto simp: strip_chars_def)

lemma normalizePhone_unfold:
  "raw \<noteq> [] \<Longrightarrow>
   normalizePhone raw =
     (if startsWithPlus (strip_chars raw) then
        (if matches_10_15_digits (drop 1 (strip_chars raw)) then Ok (strip_chars raw)
         else Rejected ''Invalid E.164 format'')
      else if matches_mobile (strip_leading_zeros (strip_chars raw)) then
        Ok (''+91'' @ strip_leading_zeros (strip_chars raw))
      else if matches_10_15_digits (strip_leading_zeros (strip_chars raw)) then
        Rejected ''Ambiguous country code; include +<country_code>''
      else Rejected ''Unrecognized phone pattern'')"
  by (simp add: normalizePhone_def trim_strip_chars Let_def)

lemma normalizePhone_empty: "normalizePhone [] = Rejected ''Empty phone''"
  by (simp add: normalizePhone_def)

lemma matches_mobile_nonempty: "matches_mobile s \<Longrightarrow> s \<noteq> []"
  by (auto simp: matches_mobile_def)

lemma matches_digits_nonempty: "matches_10_15_digits s \<Longrightarrow> s \<noteq> []"
  by (auto simp: matches_10_15_digits_def)

lemma strip_leading_zeros_nonempty: "strip_leading_zeros s \<noteq> [] \<Longrightarrow> s \<noteq> []"
  by (auto simp: strip_leading_zeros_def)

text \<open>
  C3. Whenever the cleaned form of the input is a plus sign followed by 10 to 15 digits,
  the result is \<open>ok: true\<close> with that cleaned, plus-prefixed value unchanged; whenever the
  cleaned form starts with a plus sign and what follows is not 10 to 15 digits, the result
  is \<open>ok: false\<close> with reason "Invalid E.164 format". The cleaned form is the value of the
  variable \<open>cleaned\<close> of the function.
\<close>

theorem normalizePhone_plus:
  "(cleaned_of raw = CHR ''+'' # ds \<and> matches_10_15_digits ds
      \<longrightarrow> normalizePhone raw = Ok (CHR ''+'' # ds))
   \<and> (cleaned_of raw = CHR ''+'' # ds \<and> \<not> matches_10_15_digits ds
      \<longrightarrow> normalizePhone raw = Rejected ''Invalid E.164 format'')"
proof -
  have "raw \<noteq> []" if "cleaned_of raw = CHR ''+'' # ds"
    using that strip_chars_nonempty [of raw] by (simp add: cleaned_of_eq)
  then show ?thesis
    by (auto simp: cleaned_of_eq normalizePhone_unfold startsWithPlus_def)
qed

theorem normalizePhone_plus_witness:
  "cleaned_of ''+1 (415) 555-2671'' = CHR ''+'' # ''14155552671''
   \<and> matches_10_15_digits ''14155552671''
   \<and> normalizePhone ''+1 (415) 555-2671'' = Ok ''+14155552671''
   \<and> cleaned_of ''+12-34'' = CHR ''+'' # ''1234''
   \<and> \<not> matches_10_15_digits ''1234''
   \<and> normalizePhone ''+12-34'' = Rejected ''Invalid E.164 format''"
proof -
  have a: "cleaned_of ''+1 (415) 555-2671'' = CHR ''+'' # ''14155552671''"
    by (simp add: cleaned_of_eq strip_chars_def is_digit_def)
  have b: "matches_10_15_digits ''14155552671''"
    by (simp add: matches_10_15_digits_def is_digit_def)
  have c: "cleaned_of ''+12-34'' = CHR ''+'' # ''1234''"
    by (simp add: cleaned_of_eq strip_chars_def is_digit_def)
  have d: "\<not> matches_10_15_digits ''1234''"
    by (simp add: matches_10_15_digits_def)
  show ?thesis
    using a b c d
      normalizePhone_plus [of "''+1 (415) 555-2671''" "''14155552671''"]
      normalizePhone_plus [of "''+12-34''" "''1234''"]
    by simp
qed

text \<open>
  C4. For an input whose cleaned form has no leading plus sign, let \<open>d\<close> be the cleaned
  form without its leading zeros. If \<open>d\<close> is exactly ten digits, the first of them 6 to 9,
  the result is \<open>ok: true\<close> with "+91" in front of \<open>d\<close>. If \<open>d\<close> is 10 to 15 digits and not
  of that shape, the result is \<open>ok: false\<close> with the reason "Ambiguous country code;
  include +<country_code>". Every other input is rejected. In particular "9876543210"
  gives "+919876543210" and sixteen digits without a plus sign are rejected.
\<close>

theorem normalizePhone_no_plus:
  "(\<not> startsWithPlus (cleaned_of raw) \<and> matches_mobile (strip_leading_zeros (cleaned_of raw))
      \<longrightarrow> normalizePhone raw = Ok (''+91'' @ strip_leading_zeros (cleaned_of raw)))
   \<and> (\<not> startsWithPlus (cleaned_of raw)
        \<and> \<not> matches_mobile (strip_leading_zeros (cleaned_of raw))
        \<and> matches_10_15_digits (strip_leading_zeros (cleaned_of raw))
      \<longrightarrow> normalizePhone raw = Rejected ''Ambiguous country code; include +<country_code>'')
   \<and> (\<not> startsWithPlus (cleaned_of raw)
        \<and> \<not> matches_mobile (strip_leading_zeros (cleaned_of raw))
        \<and> \<not> matches_10_15_digits (strip_leading_zeros (cleaned_of raw))
      \<longrightarrow> \<not> is_ok (normalizePhone raw))
   \<and> normalizePhone ''9876543210'' = Ok ''+919876543210''
   \<and> \<not> is_ok (normalizePhone ''1234567890123456'')"
proof -
  have ne: "raw \<noteq> []" if "strip_leading_zeros (cleaned_of raw) \<noteq> []"
  proof -
    have "strip_chars raw \<noteq> []"
      using that strip_leading_zeros_nonempty [of "strip_chars raw"]
      by (simp add: cleaned_of_eq)
    then show ?thesis by (rule strip_chars_nonempty)
  qed
  have ne1: "raw \<noteq> []" if "matches_mobile (strip_leading_zeros (cleaned_of raw))"
    using that by (intro ne matches_mobile_nonempty)
  have ne2: "raw \<noteq> []" if "matches_10_15_digits (strip_leading_zeros (cleaned_of raw))"
    using that by (intro ne matches_digits_nonempty)
  have p1: "normalizePhone raw = Ok (''+91'' @ strip_leading_zeros (cleaned_of raw))"
    if "\<not> startsWithPlus (cleaned_of raw)"
      and "matches_mobile (strip_leading_zeros (cleaned_of raw))"
    using that ne1 by (simp add: normalizePhone_unfold cleaned_of_eq)
  have p2: "normalizePhone raw = Rejected ''Ambiguous country code; include +<country_code>''"
    if "\<not> startsWithPlus (cleaned_of raw)"
      and "\<not> matches_mobile (strip_leading_zeros (cleaned_of raw))"
      and "matches_10_15_digits (strip_leading_zeros (cleaned_of raw))"
    using that ne2 by (simp add: normalizePhone_unfold cleaned_of_eq)
  have p3: "\<not> is_ok (normalizePhone raw)"
    if "\<not> startsWithPlus (cleaned_of raw)"
      and "\<not> matches_mobile (strip_leading_zeros (cleaned_of raw))"
      and "\<not> matches_10_15_digits (strip_leading_zeros (cleaned_of raw))"
  proof (cases "raw = []")
    case True
    then show ?thesis by (simp add: normalizePhone_empty)
  next
    case False
    then show ?thesis using that by (simp add: normalizePhone_unfold cleaned_of_eq)
  qed
  have p4: "normalizePhone ''9876543210'' = Ok ''+919876543210''"
    by (simp add: normalizePhone_unfold strip_chars_def is_digit_def startsWithPlus_def
        strip_leading_zeros_def matches_mobile_def)
  have p5: "\<not> is_ok (normalizePhone ''1234567890123456'')"
    by (simp add: normalizePhone_unfold strip_chars_def is_digit_def startsWithPlus_def
        strip_leading_zeros_def matches_mobile_def matches_10_15_digits_def)
  show ?thesis
    by (intro conjI impI; (elim conjE)?; (rule p1 p2 p3 p4 p5; assumption)?)
qed

theorem normalizePhone_no_plus_witness:
  "\<not> startsWithPlus (cleaned_of ''098765 43210'')
   \<and> matches_mobile (strip_leading_zeros (cleaned_of ''098765 43210''))
   \<and> normalizePhone ''098765 43210'' = Ok ''+919876543210''
   \<and> \<not> startsWithPlus (cleaned_of ''123456789012345'')
   \<and> \<not> matches_mobile (strip_leading_zeros (cleaned_of ''123456789012345''))
   \<and> matches_10_15_digits (strip_leading_zeros (cleaned_of ''123456789012345''))
   \<and> normalizePhone ''123456789012345''
       = Rejected ''Ambiguous country code; include +<country_code>''
   \<and> \<not> startsWithPlus (cleaned_of ''abc'')
   \<and> \<not> matches_mobile (strip_leading_zeros (cleaned_of ''abc''))
   \<and> \<not> matches_10_15_digits (strip_leading_zeros (cleaned_of ''abc''))
   \<and> \<not> is_ok (normalizePhone ''abc'')"
proof -
  have a: "cleaned_of ''098765 43210'' = ''09876543210''"
    by (simp add: cleaned_of_eq strip_chars_def is_digit_def)
  have b: "cleaned_of ''123456789012345'' = ''123456789012345''"
    by (simp add: cleaned_of_eq strip_chars_def is_digit_def)
  have c: "cleaned_of ''abc'' = []"
    by (simp add: cleaned_of_eq strip_chars_def is_digit_def)
  have h1: "\<not> startsWithPlus (cleaned_of ''098765 43210'')
      \<and> matches_mobile (strip_leading_zeros (cleaned_of ''098765 43210''))"
    by (simp add: a startsWithPlus_def strip_leading_zeros_def matches_mobile_def is_digit_def)
  have h2: "\<not> startsWithPlus (cleaned_of ''123456789012345'')
      \<and> \<not> matches_mobile (strip_leading_zeros (cleaned_of ''123456789012345''))
      \<and> matches_10_15_digits (strip_leading_zeros (cleaned_of ''123456789012345''))"
    by (simp add: b startsWithPlus_def strip_leading_zeros_def matches_mobile_def
        matches_10_15_digits_def is_digit_def)
  have h3: "\<not> startsWithPlus (cleaned_of ''abc'')
      \<and> \<not> matches_mobile (strip_leading_zeros (cleaned_of ''abc''))
      \<and> \<not> matches_10_15_digits (strip_leading_zeros (cleaned_of ''abc''))"
    by (simp add: c startsWithPlus_def strip_leading_zeros_def matches_mobile_def
        matches_10_15_digits_def)
  have s1: "''+91'' @ strip_leading_zeros (cleaned_of ''098765 43210'') = ''+919876543210''"
    by (simp add: a strip_leading_zeros_def)
  show ?thesis
    using h1 h2 h3 s1
      normalizePhone_no_plus [of "''098765 43210''"]
      normalizePhone_no_plus [of "''123456789012345''"]
      normalizePhone_no_plus [of "''abc''"]
    by simp
qed

text \<open>
  C5, as the specification states it: normalising an input gives the same result as
  normalising the input stripped of everything but digits and a single leading plus sign.
  The code keeps every plus sign, so an interior plus sign makes an otherwise valid
  number invalid, and the claim fails.
\<close>

theorem normalizePhone_spec_strip_counterexample:
  "normalizePhone ''+1234+5678901'' \<noteq> normalizePhone (spec_strip ''+1234+5678901'')"
proof -
  have a: "strip_chars ''+1234+5678901'' = ''+1234+5678901''"
    by (simp add: strip_chars_def is_digit_def)
  have b: "spec_strip ''+1234+5678901'' = ''+12345678901''"
    by (simp add: spec_strip_def a is_digit_def)
  have c: "strip_chars ''+12345678901'' = ''+12345678901''"
    by (simp add: strip_chars_def is_digit_def)
  have l: "normalizePhone ''+1234+5678901'' = Rejected ''Invalid E.164 format''"
    by (simp add: normalizePhone_unfold a startsWithPlus_def matches_10_15_digits_def
        is_digit_def)
  have r: "normalizePhone ''+12345678901'' = Ok ''+12345678901''"
    by (simp add: normalizePhone_unfold c startsWithPlus_def matches_10_15_digits_def
        is_digit_def)
  show ?thesis by (simp add: l b r)
qed

lemma in_set_dropWhile: "x \<in> set xs \<Longrightarrow> \<not> P x \<Longrightarrow> x \<in> set (dropWhile P xs)"
  by (induction xs) auto

lemma plus_not_digit: "\<not> is_digit (CHR ''+'')"
  by (simp add: is_digit_def)

lemma plus_no_digits: "CHR ''+'' \<in> set s \<Longrightarrow> \<not> list_all is_digit s"
  using plus_not_digit by (auto simp: list_all_iff)

lemma interior_plus_rejected:
  assumes "CHR ''+'' \<in> set (drop 1 (strip_chars raw))"
  shows "normalizePhone raw =
     Rejected (if startsWithPlus (strip_chars raw) then ''Invalid E.164 format''
               else ''Unrecognized phone pattern'')"
proof -
  let ?c = "strip_chars raw"
  have mem: "CHR ''+'' \<in> set ?c" using assms by (rule in_set_dropD)
  then have "?c \<noteq> []" by auto
  then have ne: "raw \<noteq> []" by (rule strip_chars_nonempty)
  show ?thesis
  proof (cases "startsWithPlus ?c")
    case True
    have "\<not> matches_10_15_digits (drop 1 ?c)"
      using plus_no_digits [OF assms] by (simp add: matches_10_15_digits_def)
    then show ?thesis using True ne by (simp add: normalizePhone_unfold)
  next
    case False
    let ?d = "strip_leading_zeros ?c"
    have d: "CHR ''+'' \<in> set ?d"
      unfolding strip_leading_zeros_def using mem by (rule in_set_dropWhile) simp
    have n1: "\<not> matches_10_15_digits ?d"
      using plus_no_digits [OF d] by (simp add: matches_10_15_digits_def)
    have n2: "\<not> matches_mobile ?d"
    proof
      assume m: "matches_mobile ?d"
      then obtain x r where xr: "?d = x # r" and x: "x \<in> set ''6789''"
        and r: "list_all is_digit r"
        by (cases ?d) (auto simp: matches_mobile_def)
      have "x \<noteq> CHR ''+''" using x by auto
      then have "CHR ''+'' \<in> set r" using d xr by auto
      then show False using plus_no_digits r by blast
    qed
    show ?thesis using False n1 n2 ne by (simp add: normalizePhone_unfold)
  qed
qed

lemma strip_chars_append: "strip_chars (a @ b) = strip_chars a @ strip_chars b"
  by (simp add: strip_chars_def)

lemma strip_chars_plus: "strip_chars (CHR ''+'' # b) = CHR ''+'' # strip_chars b"
  by (simp add: strip_chars_def)

text \<open>
  C5, amended: the first step deletes every character other than digits and plus signs,
  and keeps every plus sign, not only a leading one. For every input, normalising it and
  normalising its stripped form agree on \<open>ok\<close>; they return the very same result whenever
  the stripped form is not empty; and a non-empty input whose stripped form is empty is
  rejected as "Unrecognized phone pattern". The plus signs of the stripped form are
  those of the input. A plus sign that stands after a digit or after another plus sign
  is therefore not removed and makes the input fail: with "Invalid E.164 format" when
  the stripped form starts with a plus sign, with "Unrecognized phone pattern"
  otherwise.
\<close>

theorem normalizePhone_strip_chars:
  "(strip_chars raw \<noteq> [] \<longrightarrow> normalizePhone raw = normalizePhone (strip_chars raw))
   \<and> is_ok (normalizePhone raw) = is_ok (normalizePhone (strip_chars raw))
   \<and> (strip_chars raw = [] \<and> raw \<noteq> []
        \<longrightarrow> normalizePhone raw = Rejected ''Unrecognized phone pattern'')
   \<and> filter (\<lambda>c. c = CHR ''+'') (strip_chars raw) = filter (\<lambda>c. c = CHR ''+'') raw
   \<and> (raw = pre @ CHR ''+'' # post \<and> (\<exists>c \<in> set pre. is_digit c \<or> c = CHR ''+'')
        \<longrightarrow> \<not> is_ok (normalizePhone raw)
            \<and> normalizePhone raw =
                Rejected (if startsWithPlus (strip_chars raw) then ''Invalid E.164 format''
                          else ''Unrecognized phone pattern''))"
proof -
  have eq: "normalizePhone raw = normalizePhone (strip_chars raw)" if "strip_chars raw \<noteq> []"
  proof -
    have "raw \<noteq> []" using that by (rule strip_chars_nonempty)
    then show ?thesis
      using that by (simp add: normalizePhone_unfold strip_chars_idem)
  qed
  have un: "normalizePhone raw = Rejected ''Unrecognized phone pattern''"
    if "strip_chars raw = []" and "raw \<noteq> []"
    using that
    by (simp add: normalizePhone_unfold startsWithPlus_def strip_leading_zeros_def
        matches_mobile_def matches_10_15_digits_def)
  have ok: "is_ok (normalizePhone raw) = is_ok (normalizePhone (strip_chars raw))"
  proof (cases "strip_chars raw = []")
    case True
    show ?thesis
    proof (cases "raw = []")
      case True
      then show ?thesis by (simp add: strip_chars_def)
    next
      case False
      then show ?thesis using True un by (simp add: normalizePhone_empty)
    qed
  next
    case False
    then show ?thesis using eq by simp
  qed
  have keep: "filter (\<lambda>c. c = CHR ''+'') (strip_chars raw) = filter (\<lambda>c. c = CHR ''+'') raw"
    unfolding strip_chars_def filter_filter by (rule filter_cong) auto
  have inner: "normalizePhone raw =
      Rejected (if startsWithPlus (strip_chars raw) then ''Invalid E.164 format''
                else ''Unrecognized phone pattern'')"
    if h1: "raw = pre @ CHR ''+'' # post" and h2: "\<exists>c \<in> set pre. is_digit c \<or> c = CHR ''+''"
  proof -
    have "strip_chars pre \<noteq> []"
      using h2 by (auto simp: strip_chars_def filter_empty_conv)
    then obtain x r where xr: "strip_chars pre = x # r" by (cases "strip_chars pre") auto
    have "strip_chars raw = x # r @ CHR ''+'' # strip_chars post"
      using h1 by (simp add: strip_chars_append strip_chars_plus xr)
    then have "CHR ''+'' \<in> set (drop 1 (strip_chars raw))" by simp
    then show ?thesis by (rule interior_plus_rejected)
  qed
  have inner_ok: "\<not> is_ok (normalizePhone raw)"
    if h1: "raw = pre @ CHR ''+'' # post" and h2: "\<exists>c \<in> set pre. is_digit c \<or> c = CHR ''+''"
    using inner [OF h1 h2] by simp
  show ?thesis
    by (intro conjI impI; (elim conjE)?;
        (rule eq | rule un | rule ok | rule keep | rule inner_ok | rule inner); assumption?)
qed

theorem normalizePhone_strip_chars_witness:
  "strip_chars ''+1234+5678901 x'' \<noteq> []
   \<and> normalizePhone ''+1234+5678901 x'' = normalizePhone (strip_chars ''+1234+5678901 x'')
   \<and> strip_chars ''abc'' = [] \<and> ''abc'' \<noteq> []
   \<and> normalizePhone ''abc'' = Rejected ''Unrecognized phone pattern''
   \<and> ''+1234+5678901 x'' = ''+1234'' @ CHR ''+'' # ''5678901 x''
   \<and> (\<exists>c \<in> set ''+1234''. is_digit c \<or> c = CHR ''+'')
   \<and> normalizePhone ''+1234+5678901 x'' = Rejected ''Invalid E.164 format''
   \<and> ''98765+43210'' = ''98765'' @ CHR ''+'' # ''43210''
   \<and> (\<exists>c \<in> set ''98765''. is_digit c \<or> c = CHR ''+'')
   \<and> normalizePhone ''98765+43210'' = Rejected ''Unrecognized phone pattern''"
proof -
  have a: "strip_chars ''+1234+5678901 x'' \<noteq> []"
    by (simp add: strip_chars_def)
  have b: "strip_chars ''abc'' = [] \<and> ''abc'' \<noteq> []"
    by (simp add: strip_chars_def is_digit_def)
  have p1: "''+1234+5678901 x'' = ''+1234'' @ CHR ''+'' # ''5678901 x''
      \<and> (\<exists>c \<in> set ''+1234''. is_digit c \<or> c = CHR ''+'')"
    by simp
  have p2: "''98765+43210'' = ''98765'' @ CHR ''+'' # ''43210''
      \<and> (\<exists>c \<in> set ''98765''. is_digit c \<or> c = CHR ''+'')"
    by (simp add: is_digit_def)
  have s1: "startsWithPlus (strip_chars ''+1234+5678901 x'')"
    by (simp add: strip_chars_def startsWithPlus_def)
  have s2: "\<not> startsWithPlus (strip_chars ''98765+43210'')"
    by (simp add: strip_chars_def startsWithPlus_def is_digit_def)
  have r1: "normalizePhone ''+1234+5678901 x'' = normalizePhone (strip_chars ''+1234+5678901 x'')"
    using a normalizePhone_strip_chars [where raw = "''+1234+5678901 x''"] by blast
  have r2: "normalizePhone ''abc'' = Rejected ''Unrecognized phone pattern''"
    using b normalizePhone_strip_chars [where raw = "''abc''"] by blast
  have r3: "normalizePhone ''+1234+5678901 x'' = Rejected ''Invalid E.164 format''"
    using p1 s1 normalizePhone_strip_chars [where raw = "''+1234+5678901 x''"
        and pre = "''+1234''" and post = "''5678901 x''"]
    by simp
  have r4: "normalizePhone ''98765+43210'' = Rejected ''Unrecognized phone pattern''"
    using p2 s2 normalizePhone_strip_chars [where raw = "''98765+43210''"
        and pre = "''98765''" and post = "''43210''"]
    by simp
  show ?thesis
    by (intro conjI a r1 b [THEN conjunct1] b [THEN conjunct2] r2
        p1 [THEN conjunct1] p1 [THEN conjunct2] r3 p2 [THEN conjunct1] p2 [THEN conjunct2] r4)
qed

section \<open>The SMS endpoint (sms-server.js, POST /send-sms)\<close>

text \<open>
  The JSON body of the request. The client of this repository sends every field as a
  string or leaves it out, so a field is an optional string. A field is falsy in
  JavaScript when it is absent or the empty string.
\<close>

record SmsRequest =
  req_accountSid :: "string option"
  req_authToken :: "string option"
  req_from :: "string option"
  req_to :: "string option"
  req_body :: "string option"
  req_statusCallback :: "string option"

definition truthy :: "string option \<Rightarrow> bool" where
  "truthy v = (case v of None \<Rightarrow> False | Some s \<Rightarrow> s \<noteq> [])"

definition str :: "string option \<Rightarrow> string" where
  "str v = (case v of None \<Rightarrow> [] | Some s \<Rightarrow> s)"

text \<open>\<open>a || b\<close> on optional strings.\<close>

definition js_or :: "string option \<Rightarrow> string option \<Rightarrow> string option" where
  "js_or a b = (if truthy a then a else b)"

text \<open>
  The provider. \<open>twilio(accountSid, authToken)\<close> followed by \<open>client.messages.create\<close> is one
  call of the Twilio library with the credentials and the message parameters; it returns
  the message SID or throws an error object with an optional message and code.
\<close>

record TwilioParams =
  p_body :: string
  p_from :: string
  p_to :: string
  p_statusCallback :: "string option"

record TwilioError =
  e_message :: "string option"
  e_code :: "int option"

type_synonym TwilioClient = "string \<Rightarrow> string \<Rightarrow> TwilioParams \<Rightarrow> TwilioError + string"

text \<open>The HTTP status and the JSON object of the answer; an absent key is \<open>None\<close>.\<close>

record SmsResponse =
  r_status :: nat
  r_success :: bool
  r_error :: "string option"
  r_original :: "string option"
  r_fields :: "(bool \<times> bool \<times> bool \<times> bool \<times> bool) option"
  r_sid :: "string option"
  r_to :: "string option"
  r_code :: "int option"
  r_hint :: "string option"

definition response :: "nat \<Rightarrow> bool \<Rightarrow> SmsResponse" where
  "response st ok =
     \<lparr>r_status = st, r_success = ok, r_error = None, r_original = None, r_fields = None,
      r_sid = None, r_to = None, r_code = None, r_hint = None\<rparr>"

text \<open>
  The handler returns its answer together with the list of calls it made to the provider.
  \<open>envCallback\<close> is \<open>process.env.TWILIO_STATUS_CALLBACK_URL\<close>.
\<close>

definition send_sms ::
  "string option \<Rightarrow> TwilioClient \<Rightarrow> SmsRequest \<Rightarrow> SmsResponse \<times> TwilioParams list" where
  "send_sms envCallback twilio req =
     (let statusCallback = js_or (req_statusCallback req) envCallback in
      if \<not> truthy (req_accountSid req) \<or> \<not> truthy (req_authToken req)
         \<or> \<not> truthy (req_from req) \<or> \<not> truthy (req_to req) \<or> \<not> truthy (req_body req)
      then
        ((response 400 False)
           \<lparr>r_error := Some ''Missing required fields.'',
            r_fields := Some (truthy (req_accountSid req), truthy (req_authToken req),
                              truthy (req_from req), truthy (req_to req),
                              truthy (req_body req))\<rparr>, [])
      else
        let normFrom = normalizePhone (str (req_from req));
            normTo = normalizePhone (str (req_to req))
        in
        case normFrom of
          Rejected reason \<Rightarrow>
            ((response 400 False)
               \<lparr>r_error := Some (''Invalid 'from' number: '' @ reason),
                r_original := req_from req\<rparr>, [])
        | Ok fromValue \<Rightarrow>
            (case normTo of
               Rejected reason \<Rightarrow>
                 ((response 400 False)
                    \<lparr>r_error := Some (''Invalid 'to' number: '' @ reason),
                     r_original := req_to req\<rparr>, [])
             | Ok toValue \<Rightarrow>
                 (let createParams =
                        \<lparr>p_body = str (req_body req), p_from = fromValue, p_to = toValue,
                         p_statusCallback =
                           (if truthy statusCallback then statusCallback else None)\<rparr>
                  in
                  case twilio (str (req_accountSid req)) (str (req_authToken req)) createParams of
                    Inr sid \<Rightarrow>
                      ((response 200 True)\<lparr>r_sid := Some sid, r_to := Some toValue\<rparr>,
                       [createParams])
                  | Inl err \<Rightarrow>
                      ((response 500 False)
                         \<lparr>r_error := e_message err,
                          r_code := e_code err,
                          r_hint :=
                            (if e_code err = Some 21211 then
                               Some ''Check destination number formatting (must be in E.164 and enabled for SMS).''
                             else if e_code err = Some 21608 then
                               Some ''Trial account: destination number not verified.''
                             else None)\<rparr>,
                       [createParams]))))"

text \<open>A request misses a required field when one of the five is falsy.\<close>

definition missing_field :: "SmsRequest \<Rightarrow> bool" where
  "missing_field req =
     (\<not> truthy (req_accountSid req) \<or> \<not> truthy (req_authToken req)
      \<or> \<not> truthy (req_from req) \<or> \<not> truthy (req_to req) \<or> \<not> truthy (req_body req))"

fun reason_of :: "PhoneResult \<Rightarrow> string" where
  "reason_of (Rejected r) = r"
| "reason_of (Ok v) = []"

lemma send_sms_missing:
  assumes "missing_field req"
  shows "send_sms cb twilio req =
     ((response 400 False)
        \<lparr>r_error := Some ''Missing required fields.'',
         r_fields := Some (truthy (req_accountSid req), truthy (req_authToken req),
                           truthy (req_from req), truthy (req_to req),
                           truthy (req_body req))\<rparr>, [])"
proof -
  have c: "\<not> truthy (req_accountSid req) \<or> \<not> truthy (req_authToken req)
      \<or> \<not> truthy (req_from req) \<or> \<not> truthy (req_to req) \<or> \<not> truthy (req_body req)"
    using assms by (simp add: missing_field_def)
  show ?thesis
    unfolding send_sms_def Let_def by (simp only: c if_True)
qed

lemma send_sms_bad_from:
  assumes "\<not> missing_field req" and "\<not> is_ok (normalizePhone (str (req_from req)))"
  shows "send_sms cb twilio req =
     ((response 400 False)
        \<lparr>r_error := Some (''Invalid 'from' number: ''
                           @ reason_of (normalizePhone (str (req_from req)))),
         r_original := req_from req\<rparr>, [])"
proof -
  have c: "\<not> (\<not> truthy (req_accountSid req) \<or> \<not> truthy (req_authToken req)
      \<or> \<not> truthy (req_from req) \<or> \<not> truthy (req_to req) \<or> \<not> truthy (req_body req))"
    using assms(1) by (simp add: missing_field_def)
  obtain r where r: "normalizePhone (str (req_from req)) = Rejected r"
    using assms(2) by (cases "normalizePhone (str (req_from req))") auto
  show ?thesis
    unfolding send_sms_def Let_def by (simp only: c if_False r PhoneResult.case reason_of.simps)
qed

lemma send_sms_bad_to:
  assumes "\<not> missing_field req" and "is_ok (normalizePhone (str (req_from req)))"
    and "\<not> is_ok (normalizePhone (str (req_to req)))"
  shows "send_sms cb twilio req =
     ((response 400 False)
        \<lparr>r_error := Some (''Invalid 'to' number: ''
                           @ reason_of (normalizePhone (str (req_to req)))),
         r_original := req_to req\<rparr>, [])"
proof -
  have c: "\<not> (\<not> truthy (req_accountSid req) \<or> \<not> truthy (req_authToken req)
      \<or> \<not> truthy (req_from req) \<or> \<not> truthy (req_to req) \<or> \<not> truthy (req_body req))"
    using assms(1) by (simp add: missing_field_def)
  obtain v where v: "normalizePhone (str (req_from req)) = Ok v"
    using assms(2) by (cases "normalizePhone (str (req_from req))") auto
  obtain r where r: "normalizePhone (str (req_to req)) = Rejected r"
    using assms(3) by (cases "normalizePhone (str (req_to req))") auto
  show ?thesis
    unfolding send_sms_def Let_def
    by (simp only: c if_False v r PhoneResult.case reason_of.simps)
qed


text \<open>
  C6. A request to /send-sms in which a required field is missing (absent or empty), or
  whose \<open>from\<close> or \<open>to\<close> number fails normalisation, is answered with HTTP 400,
  \<open>success: false\<close> and a reason produced by the handler itself: "Missing required
  fields.", or "Invalid 'from' number: " or "Invalid 'to' number: " followed by the
  normaliser's reason. The provider is not called, and the answer is the same whatever
  the provider would have done. The handler returns once, so nothing is sent again.
\<close>

theorem send_sms_input_error:
  assumes "missing_field req
           \<or> \<not> is_ok (normalizePhone (str (req_from req)))
           \<or> \<not> is_ok (normalizePhone (str (req_to req)))"
  shows "r_status (fst (send_sms cb twilio req)) = 400
         \<and> \<not> r_success (fst (send_sms cb twilio req))
         \<and> snd (send_sms cb twilio req) = []
         \<and> send_sms cb twilio' req = send_sms cb twilio req
         \<and> r_error (fst (send_sms cb twilio req)) =
             Some (if missing_field req then ''Missing required fields.''
                   else if \<not> is_ok (normalizePhone (str (req_from req)))
                   then ''Invalid 'from' number: ''
                          @ reason_of (normalizePhone (str (req_from req)))
                   else ''Invalid 'to' number: ''
                          @ reason_of (normalizePhone (str (req_to req))))"
proof -
  consider (m) "missing_field req"
    | (f) "\<not> missing_field req" "\<not> is_ok (normalizePhone (str (req_from req)))"
    | (t) "\<not> missing_field req" "is_ok (normalizePhone (str (req_from req)))"
          "\<not> is_ok (normalizePhone (str (req_to req)))"
    using assms by blast
  then show ?thesis
  proof cases
    case m
    show ?thesis
      by (simp add: send_sms_missing [OF m] response_def m)
  next
    case f
    show ?thesis
      by (simp add: send_sms_bad_from [OF f] response_def f)
  next
    case t
    show ?thesis
      by (simp add: send_sms_bad_to [OF t] response_def t)
  qed
qed

theorem send_sms_input_error_witness:
  "\<not> is_ok (normalizePhone (str (req_to
        \<lparr>req_accountSid = Some ''AC1'', req_authToken = Some ''tok'',
         req_from = Some ''+14155552671'', req_to = Some ''abc'',
         req_body = Some ''Hi'', req_statusCallback = None\<rparr>)))
   \<and> r_status (fst (send_sms None (\<lambda>sid tok p. Inr ''SM1'')
        \<lparr>req_accountSid = Some ''AC1'', req_authToken = Some ''tok'',
         req_from = Some ''+14155552671'', req_to = Some ''abc'',
         req_body = Some ''Hi'', req_statusCallback = None\<rparr>)) = 400
   \<and> snd (send_sms None (\<lambda>sid tok p. Inr ''SM1'')
        \<lparr>req_accountSid = Some ''AC1'', req_authToken = Some ''tok'',
         req_from = Some ''+14155552671'', req_to = Some ''abc'',
         req_body = Some ''Hi'', req_statusCallback = None\<rparr>) = []
   \<and> r_error (fst (send_sms None (\<lambda>sid tok p. Inr ''SM1'')
        \<lparr>req_accountSid = Some ''AC1'', req_authToken = Some ''tok'',
         req_from = Some ''+14155552671'', req_to = Some ''abc'',
         req_body = Some ''Hi'', req_statusCallback = None\<rparr>))
       = Some ''Invalid 'to' number: Unrecognized phone pattern''"
proof -
  let ?req = "\<lparr>req_accountSid = Some ''AC1'', req_authToken = Some ''tok'',
         req_from = Some ''+14155552671'', req_to = Some ''abc'',
         req_body = Some ''Hi'', req_statusCallback = None\<rparr>"
  have to: "normalizePhone ''abc'' = Rejected ''Unrecognized phone pattern''"
    by (simp add: normalizePhone_unfold strip_chars_def is_digit_def startsWithPlus_def
        strip_leading_zeros_def matches_mobile_def matches_10_15_digits_def)
  have fr: "normalizePhone ''+14155552671'' = Ok ''+14155552671''"
    by (simp add: normalizePhone_unfold strip_chars_def is_digit_def startsWithPlus_def
        matches_10_15_digits_def)
  have nm: "\<not> missing_field ?req"
    by (simp add: missing_field_def truthy_def)
  have h: "\<not> is_ok (normalizePhone (str (req_to ?req)))"
    by (simp add: str_def to)
  have "missing_field ?req
        \<or> \<not> is_ok (normalizePhone (str (req_from ?req)))
        \<or> \<not> is_ok (normalizePhone (str (req_to ?req)))"
    using h by blast
  from send_sms_input_error [OF this, of None "\<lambda>sid tok p. Inr ''SM1''"] h nm
  show ?thesis
    by (simp add: str_def to fr)
qed

section \<open>Hints for Meta WhatsApp errors (sms-server.js, POST /send-whatsapp)\<close>

text \<open>
  The error object of the Cloud API comes from the provider, so its fields are arbitrary
  JSON values. Numbers are integers here; only equality with integer codes is tested.
\<close>

datatype jsval = JUndefined | JNull | JBool bool | JNum int | JStr string | JObject

fun js_truthy :: "jsval \<Rightarrow> bool" where
  "js_truthy JUndefined = False"
| "js_truthy JNull = False"
| "js_truthy (JBool b) = b"
| "js_truthy (JNum n) = (n \<noteq> 0)"
| "js_truthy (JStr s) = (s \<noteq> [])"
| "js_truthy JObject = True"

definition js_or_val :: "jsval \<Rightarrow> jsval \<Rightarrow> jsval" where
  "js_or_val a b = (if js_truthy a then a else b)"

text \<open>\<open>err = data?.error || {}\<close> with \<open>me_details\<close> standing for \<open>err.error_data?.details\<close>.\<close>

record MetaError =
  me_message :: jsval
  me_code :: jsval
  me_error_subcode :: jsval
  me_details :: jsval

text \<open>Case folding of the flag \<open>i\<close>: only ASCII letters fold onto the pattern's letters.\<close>

definition lower :: "char \<Rightarrow> char" where
  "lower c =
     (case map_of (zip ''ABCDEFGHIJKLMNOPQRSTUVWXYZ'' ''abcdefghijklmnopqrstuvwxyz'') c of
        Some d \<Rightarrow> d
      | None \<Rightarrow> c)"

text \<open>Whether the first string occurs somewhere in the second.\<close>

primrec has_infix :: "string \<Rightarrow> string \<Rightarrow> bool" where
  "has_infix n [] = (n = [])"
| "has_infix n (c # cs) = (take (length n) (c # cs) = n \<or> has_infix n cs)"

text \<open>\<open>24\s*hour\<close> matched at the start of a string, and anywhere in it.\<close>

definition starts_24_hour :: "string \<Rightarrow> bool" where
  "starts_24_hour s =
     (take 2 s = ''24'' \<and> take 4 (strip_prefixes whitespace (drop 2 s)) = ''hour'')"

primrec has_24_hour :: "string \<Rightarrow> bool" where
  "has_24_hour [] = False"
| "has_24_hour (c # cs) = (starts_24_hour (c # cs) \<or> has_24_hour cs)"

text \<open>\<open>/24\s*hour|customer care window|outside the 24/i.test(s)\<close>\<close>

definition test_window :: "string \<Rightarrow> bool" where
  "test_window s =
     (let l = map lower s in
      has_24_hour l \<or> has_infix ''customer care window'' l \<or> has_infix ''outside the 24'' l)"

text \<open>\<open>/Unsupported message type|type is invalid/i.test(s)\<close>\<close>

definition test_unsupported :: "string \<Rightarrow> bool" where
  "test_unsupported s =
     (let l = map lower s in
      has_infix ''unsupported message type'' l \<or> has_infix ''type is invalid'' l)"

text \<open>\<open>typeof details === "string" && re.test(details)\<close>\<close>

definition string_and :: "(string \<Rightarrow> bool) \<Rightarrow> jsval \<Rightarrow> bool" where
  "string_and re v = (case v of JStr s \<Rightarrow> re s | _ \<Rightarrow> False)"

text \<open>\<open>details = err?.error_data?.details || err?.message || ""\<close>\<close>

definition details_of :: "MetaError \<Rightarrow> jsval" where
  "details_of err = js_or_val (js_or_val (me_details err) (me_message err)) (JStr [])"

text \<open>\<open>res.ok\<close> of a \<open>fetch\<close> response: the status is in the range 200 to 299.\<close>

definition res_ok :: "nat \<Rightarrow> bool" where
  "res_ok st = (200 \<le> st \<and> st \<le> 299)"

text \<open>
  The key \<open>hint\<close> of the answer of /send-whatsapp to a response of the Cloud API with
  the given HTTP status and error object. The chain of tests runs only under
  \<open>if (!resp.ok)\<close>; with a 2xx status the handler answers \<open>success: true\<close>, which has no
  hint. \<open>None\<close> is \<open>undefined\<close>.
\<close>

definition whatsapp_hint :: "nat \<Rightarrow> MetaError \<Rightarrow> string option" where
  "whatsapp_hint status err =
     (let details = details_of err in
      if res_ok status then None
      else if status = 404 then
        Some ''Phone Number ID not found or token lacks permission. Confirm Phone Number ID in Meta > WhatsApp > Getting Started and use a token from the same Business Account.''
      else if me_code err = JNum 190 then
        (let sub = me_error_subcode err in
         if sub = JNum 463 then
           Some ''Access token expired. Create a System User permanent token in Business Settings and update your server env.''
         else if sub = JNum 467 then
           Some ''Invalid access token. Ensure you're using a valid token from the same Business Account with whatsapp_business_messaging scope.''
         else
           Some (''Invalid or expired access token. Regenerate and use a long''
                 @ [CHR 0xC3, CHR 0xA2, CHR 0xE2, CHR 0x82, CHR 0xAC, CHR 0xE2, CHR 0x80, CHR 0x98]
                 @ ''lived System User token.''))
      else if me_code err = JNum 100 then
        Some ''Invalid parameter. Ensure 'to' is a valid E.164 phone and this business has user opt-in.''
      else if me_code err = JNum 131026 then
        Some ''Recipient is not a valid WhatsApp user for this API or may have blocked messages. Verify the phone has WhatsApp, is not blocked, and is added as a tester if using a test business phone.''
      else if string_and test_window details then
        Some ''Free-form text can only be sent within 24h of user's last message. Use an approved template for initial outreach or outside the 24h window.''
      else if string_and test_unsupported details then
        Some ''Message payload invalid. For simple text, ensure type='text' and text.body is a non-empty string.''
      else None)"

text \<open>
  C7, as the specification states it: every error response with code 190 and subcode 463
  gets a hint that mentions "expired". In /send-whatsapp the test of the HTTP status comes
  first, so with status 404 such a response gets the hint about the Phone Number ID,
  which does not mention "expired".
\<close>

theorem whatsapp_hint_counterexample:
  "\<not> res_ok 404
   \<and> whatsapp_hint 404
     \<lparr>me_message = JUndefined, me_code = JNum 190, me_error_subcode = JNum 463,
      me_details = JUndefined\<rparr>
   = Some ''Phone Number ID not found or token lacks permission. Confirm Phone Number ID in Meta > WhatsApp > Getting Started and use a token from the same Business Account.''
   \<and> \<not> has_infix ''expired''
        ''Phone Number ID not found or token lacks permission. Confirm Phone Number ID in Meta > WhatsApp > Getting Started and use a token from the same Business Account.''"
proof -
  have a: "\<not> has_infix ''expired''
        ''Phone Number ID not found or token lacks permission. Confirm Phone Number ID in Meta > WhatsApp > Getting Started and use a token from the same Business Account.''"
    by simp
  show ?thesis
    using a by (simp add: whatsapp_hint_def res_ok_def)
qed

text \<open>
  C7, amended, for the handler of /send-whatsapp. An error response is one whose HTTP
  status is not 2xx; only then is a hint computed. An error response with HTTP status 404
  gives the hint that the Phone Number ID was not found or the token lacks permission,
  whatever the error code. An error response with any other status and code 190 gives,
  with subcode 463, a hint that mentions "expired" and, with subcode 467, the hint
  "Invalid access token. ...". When the status is not 404, the code is none of 190, 100
  and 131026, and the detail text matches neither pattern, there is no hint; a 2xx
  response never has one. The function is total: no input makes it fail.
\<close>

theorem whatsapp_hint_rules:
  "(status = 404 \<longrightarrow>
      (\<exists>h. whatsapp_hint status err = Some h
           \<and> has_infix ''Phone Number ID not found or token lacks permission'' h))
   \<and> (\<not> res_ok status \<and> status \<noteq> 404 \<and> me_code err = JNum 190
        \<and> me_error_subcode err = JNum 463 \<longrightarrow>
      (\<exists>h. whatsapp_hint status err = Some h \<and> has_infix ''expired'' h))
   \<and> (\<not> res_ok status \<and> status \<noteq> 404 \<and> me_code err = JNum 190
        \<and> me_error_subcode err = JNum 467 \<longrightarrow>
      (\<exists>h. whatsapp_hint status err = Some h \<and> has_infix ''Invalid access token'' h))
   \<and> (status \<noteq> 404 \<and> me_code err \<noteq> JNum 190 \<and> me_code err \<noteq> JNum 100
        \<and> me_code err \<noteq> JNum 131026
        \<and> \<not> string_and test_window (details_of err)
        \<and> \<not> string_and test_unsupported (details_of err) \<longrightarrow>
      whatsapp_hint status err = None)
   \<and> (res_ok status \<longrightarrow> whatsapp_hint status err = None)"
proof (intro conjI impI)
  assume "status = 404"
  then show "\<exists>h. whatsapp_hint status err = Some h
           \<and> has_infix ''Phone Number ID not found or token lacks permission'' h"
    by (simp add: whatsapp_hint_def res_ok_def)
next
  assume "\<not> res_ok status \<and> status \<noteq> 404 \<and> me_code err = JNum 190
        \<and> me_error_subcode err = JNum 463"
  then show "\<exists>h. whatsapp_hint status err = Some h \<and> has_infix ''expired'' h"
    by (simp add: whatsapp_hint_def)
next
  assume "\<not> res_ok status \<and> status \<noteq> 404 \<and> me_code err = JNum 190
        \<and> me_error_subcode err = JNum 467"
  then show "\<exists>h. whatsapp_hint status err = Some h \<and> has_infix ''Invalid access token'' h"
    by (simp add: whatsapp_hint_def)
next
  assume "status \<noteq> 404 \<and> me_code err \<noteq> JNum 190 \<and> me_code err \<noteq> JNum 100
        \<and> me_code err \<noteq> JNum 131026
        \<and> \<not> string_and test_window (details_of err)
        \<and> \<not> string_and test_unsupported (details_of err)"
  then show "whatsapp_hint status err = None"
    by (simp add: whatsapp_hint_def Let_def)
next
  assume "res_ok status"
  then show "whatsapp_hint status err = None"
    by (simp add: whatsapp_hint_def)
qed

theorem whatsapp_hint_rules_witness:
  "(\<exists>h. whatsapp_hint 404
          \<lparr>me_message = JStr ''Unsupported get request'', me_code = JNum 100,
           me_error_subcode = JNum 33, me_details = JUndefined\<rparr> = Some h
        \<and> has_infix ''Phone Number ID not found or token lacks permission'' h)
   \<and> (\<exists>h. whatsapp_hint 401
          \<lparr>me_message = JStr ''Session has expired'', me_code = JNum 190,
           me_error_subcode = JNum 463, me_details = JUndefined\<rparr> = Some h
        \<and> has_infix ''expired'' h)
   \<and> (\<exists>h. whatsapp_hint 401
          \<lparr>me_message = JStr ''Bad signature'', me_code = JNum 190,
           me_error_subcode = JNum 467, me_details = JUndefined\<rparr> = Some h
        \<and> has_infix ''Invalid access token'' h)
   \<and> \<not> string_and test_window
         (details_of \<lparr>me_message = JStr ''Rate Limit 24 Hit'', me_code = JNum 130429,
                      me_error_subcode = JUndefined, me_details = JNull\<rparr>)
   \<and> \<not> string_and test_unsupported
         (details_of \<lparr>me_message = JStr ''Rate Limit 24 Hit'', me_code = JNum 130429,
                      me_error_subcode = JUndefined, me_details = JNull\<rparr>)
   \<and> whatsapp_hint 429
         \<lparr>me_message = JStr ''Rate Limit 24 Hit'', me_code = JNum 130429,
          me_error_subcode = JUndefined, me_details = JNull\<rparr> = None
   \<and> res_ok 200
   \<and> whatsapp_hint 200
         \<lparr>me_message = JStr ''Session has expired'', me_code = JNum 190,
          me_error_subcode = JNum 463, me_details = JUndefined\<rparr> = None
   \<and> \<not> res_ok 401"
proof -
  have d: "details_of \<lparr>me_message = JStr ''Rate Limit 24 Hit'', me_code = JNum 130429,
                      me_error_subcode = JUndefined, me_details = JNull\<rparr>
           = JStr ''Rate Limit 24 Hit''"
    by (simp add: details_of_def js_or_val_def)
  have w: "\<not> test_window ''Rate Limit 24 Hit''"
    by code_simp
  have u: "\<not> test_unsupported ''Rate Limit 24 Hit''"
    by code_simp
  have n: "\<not> string_and test_window (JStr ''Rate Limit 24 Hit'')
           \<and> \<not> string_and test_unsupported (JStr ''Rate Limit 24 Hit'')"
    using w u by (simp add: string_and_def)
  have ok: "res_ok 200" "\<not> res_ok 401" "\<not> res_ok 429"
    by (simp_all add: res_ok_def)
  show ?thesis
    using n ok
      whatsapp_hint_rules [of 200 "\<lparr>me_message = JStr ''Session has expired'',
           me_code = JNum 190, me_error_subcode = JNum 463, me_details = JUndefined\<rparr>"]
      whatsapp_hint_rules [of 404 "\<lparr>me_message = JStr ''Unsupported get request'',
           me_code = JNum 100, me_error_subcode = JNum 33, me_details = JUndefined\<rparr>"]
      whatsapp_hint_rules [of 401 "\<lparr>me_message = JStr ''Session has expired'',
           me_code = JNum 190, me_error_subcode = JNum 463, me_details = JUndefined\<rparr>"]
      whatsapp_hint_rules [of 401 "\<lparr>me_message = JStr ''Bad signature'',
           me_code = JNum 190, me_error_subcode = JNum 467, me_details = JUndefined\<rparr>"]
      whatsapp_hint_rules [of 429 "\<lparr>me_message = JStr ''Rate Limit 24 Hit'',
           me_code = JNum 130429, me_error_subcode = JUndefined, me_details = JNull\<rparr>"]
    by (simp add: d)
qed

section \<open>Customers and the application state (types.ts, App.tsx)\<close>

datatype CustomerStatus = Pending | Sent | Clicked | Reviewed | Failed

datatype Sentiment = Positive | Negative

record FeedbackEntry =
  fb_id :: string
  fb_text :: string
  fb_sentiment :: Sentiment
  fb_date :: nat
  fb_phone :: "string option"
  fb_rating :: "int option"

record Customer =
  c_id :: string
  c_name :: string
  c_phone :: string
  c_status :: CustomerStatus
  c_addedAt :: nat
  c_rating :: "int option"
  c_feedback :: "FeedbackEntry list option"

text \<open>
  An activity log entry. Its \<open>id\<close> and \<open>timestamp\<close> come from the clock and the random
  number generator and are left out.
\<close>

record ActivityLog =
  l_customerName :: string
  l_action :: string

text \<open>
  The React state of \<open>App\<close> that the send queue reads and writes. Three more fields record
  what happened, for the theorems: the requests posted to /send-sms, the ids of the
  customers \<open>sendSmsToCustomer\<close> was called for, and the chunks taken from the queue.
\<close>

record AppState =
  customers :: "Customer list"
  activityLogs :: "ActivityLog list"
  smsQueue :: "string list"
  queueActive :: bool
  trace_fetches :: "SmsRequest list"
  trace_sends :: "string list"
  trace_batches :: "string list list"

text \<open>
  The settings a render closes over. \<open>render_body name phone\<close> is
  \<open>formatTemplate(messageTemplate, name, phone)\<close>; the placeholder substitution itself is
  not modelled.
\<close>

record Settings =
  twilioAccountSid :: string
  twilioAuthToken :: string
  twilioPhoneNumber :: string
  render_body :: "string \<Rightarrow> string \<Rightarrow> string"

text \<open>
  What \<open>fetch\<close> gives: it rejects with an error that may carry a message, or it answers
  with a status, the parsed JSON body (\<open>None\<close> when the body is not JSON) and the text
  read after a failed parse. The JSON fields are typed as the server above writes them.
\<close>

record ApiData =
  d_success :: bool
  d_error :: "string option"
  d_code :: "int option"
  d_hint :: "string option"

datatype FetchResult = FetchThrew "string option" | Response nat "ApiData option" string

type_synonym Fetch = "SmsRequest \<Rightarrow> FetchResult"

text \<open>Decimal notation of a number, as a template literal prints it.\<close>

function show_nat :: "nat \<Rightarrow> string" where
  "show_nat n =
     (if n < 10 then [''0123456789'' ! n]
      else show_nat (n div 10) @ [''0123456789'' ! (n mod 10)])"
  by pat_completeness auto
termination
  by (relation "measure id") auto

declare show_nat.simps [simp del]

definition show_int :: "int \<Rightarrow> string" where
  "show_int i = (if i < 0 then ''-'' @ show_nat (nat (- i)) else show_nat (nat i))"

text \<open>\<open>logActivity\<close> puts the new entry in front of the list.\<close>

definition logActivity :: "string \<Rightarrow> string \<Rightarrow> AppState \<Rightarrow> AppState" where
  "logActivity action customerName s =
     s\<lparr>activityLogs := \<lparr>l_customerName = customerName, l_action = action\<rparr> # activityLogs s\<rparr>"

text \<open>\<open>setCustomers(prev => prev.map(c => c.id === id ? {...c, status} : c))\<close>\<close>

definition set_status :: "string \<Rightarrow> CustomerStatus \<Rightarrow> AppState \<Rightarrow> AppState" where
  "set_status cid st s =
     s\<lparr>customers := map (\<lambda>c. if c_id c = cid then c\<lparr>c_status := st\<rparr> else c) (customers s)\<rparr>"

text \<open>
  \<open>sendSmsToCustomer\<close>. The object \<open>{ok, reason}\<close> it returns is dropped by its caller and
  is left out. A body that is not JSON makes \<open>res.json()\<close> throw, which lands in the
  \<open>catch\<close> like a rejected \<open>fetch\<close>.
\<close>

definition sendSmsToCustomer :: "Settings \<Rightarrow> Fetch \<Rightarrow> Customer \<Rightarrow> AppState \<Rightarrow> AppState" where
  "sendSmsToCustomer cfg fetch customer s0 =
     (let s = s0\<lparr>trace_sends := trace_sends s0 @ [c_id customer]\<rparr> in
      if twilioAccountSid cfg = [] \<or> twilioAuthToken cfg = [] \<or> twilioPhoneNumber cfg = []
         \<or> c_phone customer = []
      then
        logActivity ''SMS failed (missing credentials)'' (c_name customer)
          (set_status (c_id customer) Failed s)
      else
        let body = render_body cfg (c_name customer) (c_phone customer);
            req = \<lparr>req_accountSid = Some (twilioAccountSid cfg),
                   req_authToken = Some (twilioAuthToken cfg),
                   req_from = Some (twilioPhoneNumber cfg),
                   req_to = Some (c_phone customer),
                   req_body = Some body,
                   req_statusCallback = None\<rparr>;
            s1 = s\<lparr>trace_fetches := trace_fetches s @ [req]\<rparr>
        in
        case fetch req of
          Response st (Some data) raw \<Rightarrow>
            if d_success data then
              logActivity ''Sent SMS'' (c_name customer) (set_status (c_id customer) Sent s1)
            else
              logActivity
                (''SMS failed (''
                  @ (case d_code data of
                       None \<Rightarrow> ''error''
                     | Some k \<Rightarrow> if k = 0 then ''error'' else show_int k)
                  @ '')'')
                (c_name customer) (set_status (c_id customer) Failed s1)
        | Response st None raw \<Rightarrow>
            logActivity ''SMS network error'' (c_name customer)
              (set_status (c_id customer) Failed s1)
        | FetchThrew m \<Rightarrow>
            logActivity ''SMS network error'' (c_name customer)
              (set_status (c_id customer) Failed s1))"

text \<open>\<open>enqueueSmsCustomers\<close>\<close>

definition enqueueSmsCustomers :: "string list \<Rightarrow> AppState \<Rightarrow> AppState" where
  "enqueueSmsCustomers ids s = s\<lparr>smsQueue := smsQueue s @ ids\<rparr>"

section \<open>The send queue (App.tsx, the effect that drains smsQueue)\<close>

text \<open>
  One pass of the \<open>for\<close> loop. \<open>snapshot\<close> is the array \<open>customers\<close> the effect closed
  over: the list as it was when the effect started. The status updates of
  \<open>sendSmsToCustomer\<close> go to the current state.
\<close>

definition process_id :: "Settings \<Rightarrow> Fetch \<Rightarrow> Customer list \<Rightarrow> AppState \<Rightarrow> string \<Rightarrow> AppState" where
  "process_id cfg fetch snapshot s i =
     (case find (\<lambda>c. c_id c = i) snapshot of
        None \<Rightarrow> s
      | Some cust \<Rightarrow>
          if c_status cust \<noteq> Pending then s
          else sendSmsToCustomer cfg fetch cust s)"

text \<open>
  One run of the effect. It does nothing while a drain is active or the queue is empty.
  Otherwise \<open>run\<close> sets \<open>queueActive\<close>, takes the first ten ids of the queue it closed
  over, removes as many from the queue, and works through the chunk. Both state updates
  are made before the first \<open>await\<close>; they change the effect's dependencies, so React
  runs the effect's cleanup, which sets \<open>cancelled\<close>, before the loop condition is read
  again. The \<open>while\<close> loop therefore ends after the one chunk, and \<open>finally\<close> clears
  \<open>queueActive\<close>, which lets the effect run again on what is left of the queue.
\<close>

definition run_effect :: "Settings \<Rightarrow> Fetch \<Rightarrow> AppState \<Rightarrow> AppState" where
  "run_effect cfg fetch s =
     (if queueActive s then s
      else if smsQueue s = [] then s
      else
        let chunk = take 10 (smsQueue s);
            s1 = s\<lparr>queueActive := True,
                   smsQueue := drop (length chunk) (smsQueue s),
                   trace_batches := trace_batches s @ [chunk]\<rparr>;
            s2 = foldl (process_id cfg fetch (customers s)) s1 chunk
        in s2\<lparr>queueActive := False\<rparr>)"

lemma sendSmsToCustomer_frame:
  "smsQueue (sendSmsToCustomer cfg fetch c s) = smsQueue s
   \<and> queueActive (sendSmsToCustomer cfg fetch c s) = queueActive s
   \<and> trace_batches (sendSmsToCustomer cfg fetch c s) = trace_batches s"
  by (simp add: sendSmsToCustomer_def logActivity_def set_status_def Let_def
      split: FetchResult.split option.split)

lemma process_id_frame:
  "smsQueue (process_id cfg fetch snap s i) = smsQueue s
   \<and> queueActive (process_id cfg fetch snap s i) = queueActive s
   \<and> trace_batches (process_id cfg fetch snap s i) = trace_batches s"
  by (simp add: process_id_def sendSmsToCustomer_frame split: option.split)

lemma foldl_process_id_frame:
  "smsQueue (foldl (process_id cfg fetch snap) s ids) = smsQueue s
   \<and> queueActive (foldl (process_id cfg fetch snap) s ids) = queueActive s
   \<and> trace_batches (foldl (process_id cfg fetch snap) s ids) = trace_batches s"
  by (induction ids arbitrary: s) (simp_all add: process_id_frame)

lemma run_effect_queue:
  assumes "\<not> queueActive s" and "smsQueue s \<noteq> []"
  shows "smsQueue (run_effect cfg fetch s) = drop 10 (smsQueue s)"
    and "queueActive (run_effect cfg fetch s) = False"
    and "trace_batches (run_effect cfg fetch s) = trace_batches s @ [take 10 (smsQueue s)]"
  using assms by (simp_all add: run_effect_def Let_def foldl_process_id_frame min_def)

text \<open>
  The drain: the effect runs again after every chunk until the queue is empty. The queue
  shrinks with every run, so the drain ends.
\<close>

function drain :: "Settings \<Rightarrow> Fetch \<Rightarrow> AppState \<Rightarrow> AppState" where
  "drain cfg fetch s =
     (if queueActive s \<or> smsQueue s = [] then s
      else drain cfg fetch (run_effect cfg fetch s))"
  by pat_completeness auto
termination
proof (relation "measure (\<lambda>(cfg, fetch, s). length (smsQueue s))")
  show "wf (measure (\<lambda>(cfg, fetch, s). length (smsQueue s)))" by simp
next
  fix cfg :: Settings and fetch :: Fetch and s :: AppState
  assume "\<not> (queueActive s \<or> smsQueue s = [])"
  then have a: "\<not> queueActive s" and b: "smsQueue s \<noteq> []" by auto
  have "length (drop 10 (smsQueue s)) < length (smsQueue s)"
    using b by (cases "smsQueue s") auto
  then show "((cfg, fetch, run_effect cfg fetch s), (cfg, fetch, s))
      \<in> measure (\<lambda>(cfg, fetch, s). length (smsQueue s))"
    by (simp add: run_effect_queue(1) [OF a b])
qed

declare drain.simps [simp del]

section \<open>Customers entering the list and the funnel click (App.tsx)\<close>

text \<open>The state of a freshly mounted \<open>App\<close> with nothing in local storage.\<close>

definition initial_state :: AppState where
  "initial_state =
     \<lparr>customers = [], activityLogs = [], smsQueue = [], queueActive = False,
      trace_fetches = [], trace_sends = [], trace_batches = []\<rparr>"

text \<open>The customer object \<open>handleAddCustomer\<close> and \<open>handleBulkAddCustomers\<close> build.\<close>

definition new_customer :: "string \<Rightarrow> string \<Rightarrow> string \<Rightarrow> nat \<Rightarrow> Customer" where
  "new_customer cid name phone now =
     \<lparr>c_id = cid, c_name = name, c_phone = phone, c_status = Pending, c_addedAt = now,
      c_rating = None, c_feedback = None\<rparr>"

text \<open>\<open>handleOpenFunnel\<close>: the click on the funnel link.\<close>

definition handleOpenFunnel :: "string \<Rightarrow> AppState \<Rightarrow> AppState" where
  "handleOpenFunnel customerId s =
     (case find (\<lambda>c. c_id c = customerId) (customers s) of
        None \<Rightarrow> s
      | Some cust \<Rightarrow>
          logActivity ''Clicked review link (simulation)'' (c_name cust)
            (set_status customerId Clicked s))"

text \<open>
  C8, as the specification states it: a funnel click leaves the status of a customer that
  is not \<open>Sent\<close> unchanged. The handler has no test of the status: a \<open>Pending\<close> customer
  and a \<open>Reviewed\<close> customer both become \<open>Clicked\<close>.
\<close>

theorem handleOpenFunnel_counterexample:
  "map c_status (customers (initial_state
       \<lparr>customers := [new_customer ''c1'' ''Asha'' ''9876543210'' 0,
                      (new_customer ''c2'' ''Ravi'' ''9876543211'' 0)\<lparr>c_status := Reviewed\<rparr>]\<rparr>))
     = [Pending, Reviewed]
   \<and> map c_status (customers (handleOpenFunnel ''c1'' (initial_state
       \<lparr>customers := [new_customer ''c1'' ''Asha'' ''9876543210'' 0,
                      (new_customer ''c2'' ''Ravi'' ''9876543211'' 0)\<lparr>c_status := Reviewed\<rparr>]\<rparr>)))
     = [Clicked, Reviewed]
   \<and> map c_status (customers (handleOpenFunnel ''c2'' (initial_state
       \<lparr>customers := [new_customer ''c1'' ''Asha'' ''9876543210'' 0,
                      (new_customer ''c2'' ''Ravi'' ''9876543211'' 0)\<lparr>c_status := Reviewed\<rparr>]\<rparr>)))
     = [Pending, Clicked]"
  by (simp add: handleOpenFunnel_def initial_state_def new_customer_def logActivity_def
      set_status_def)

text \<open>
  C8, amended: the funnel click sets the status of every customer with the given id to
  \<open>Clicked\<close>, whatever the status was (so \<open>Sent\<close> becomes \<open>Clicked\<close>), leaves every other
  customer as it is, and puts one entry "Clicked review link (simulation)" with the
  customer's name in front of the activity log. When no customer has the id, the state
  does not change.
\<close>

theorem handleOpenFunnel_sets_clicked:
  "(find (\<lambda>c. c_id c = cid) (customers s) = None \<longrightarrow> handleOpenFunnel cid s = s)
   \<and> (\<forall>cust. find (\<lambda>c. c_id c = cid) (customers s) = Some cust \<longrightarrow>
        length (customers (handleOpenFunnel cid s)) = length (customers s)
        \<and> (\<forall>i < length (customers s).
              customers (handleOpenFunnel cid s) ! i =
                (if c_id (customers s ! i) = cid
                 then (customers s ! i)\<lparr>c_status := Clicked\<rparr>
                 else customers s ! i))
        \<and> activityLogs (handleOpenFunnel cid s) =
            \<lparr>l_customerName = c_name cust, l_action = ''Clicked review link (simulation)''\<rparr>
              # activityLogs s)"
proof (intro conjI allI impI)
  assume "find (\<lambda>c. c_id c = cid) (customers s) = None"
  then show "handleOpenFunnel cid s = s"
    by (simp add: handleOpenFunnel_def)
next
  fix cust
  assume f: "find (\<lambda>c. c_id c = cid) (customers s) = Some cust"
  show "length (customers (handleOpenFunnel cid s)) = length (customers s)"
    by (simp add: handleOpenFunnel_def f logActivity_def set_status_def)
  show "activityLogs (handleOpenFunnel cid s) =
      \<lparr>l_customerName = c_name cust, l_action = ''Clicked review link (simulation)''\<rparr>
        # activityLogs s"
    by (simp add: handleOpenFunnel_def f logActivity_def set_status_def)
next
  fix cust i
  assume f: "find (\<lambda>c. c_id c = cid) (customers s) = Some cust"
    and i: "i < length (customers s)"
  show "customers (handleOpenFunnel cid s) ! i =
      (if c_id (customers s ! i) = cid
       then (customers s ! i)\<lparr>c_status := Clicked\<rparr>
       else customers s ! i)"
    using i by (simp add: handleOpenFunnel_def f logActivity_def set_status_def)
qed

theorem handleOpenFunnel_sets_clicked_witness:
  "find (\<lambda>c. c_id c = ''zz'') (customers (initial_state
       \<lparr>customers := [(new_customer ''c1'' ''Asha'' ''9876543210'' 0)\<lparr>c_status := Sent\<rparr>,
                      new_customer ''c2'' ''Ravi'' ''9876543211'' 0]\<rparr>)) = None
   \<and> handleOpenFunnel ''zz'' (initial_state
       \<lparr>customers := [(new_customer ''c1'' ''Asha'' ''9876543210'' 0)\<lparr>c_status := Sent\<rparr>,
                      new_customer ''c2'' ''Ravi'' ''9876543211'' 0]\<rparr>)
     = initial_state
       \<lparr>customers := [(new_customer ''c1'' ''Asha'' ''9876543210'' 0)\<lparr>c_status := Sent\<rparr>,
                      new_customer ''c2'' ''Ravi'' ''9876543211'' 0]\<rparr>
   \<and> find (\<lambda>c. c_id c = ''c1'') (customers (initial_state
       \<lparr>customers := [(new_customer ''c1'' ''Asha'' ''9876543210'' 0)\<lparr>c_status := Sent\<rparr>,
                      new_customer ''c2'' ''Ravi'' ''9876543211'' 0]\<rparr>))
     = Some ((new_customer ''c1'' ''Asha'' ''9876543210'' 0)\<lparr>c_status := Sent\<rparr>)
   \<and> customers (handleOpenFunnel ''c1'' (initial_state
       \<lparr>customers := [(new_customer ''c1'' ''Asha'' ''9876543210'' 0)\<lparr>c_status := Sent\<rparr>,
                      new_customer ''c2'' ''Ravi'' ''9876543211'' 0]\<rparr>)) ! 0
     = (new_customer ''c1'' ''Asha'' ''9876543210'' 0)\<lparr>c_status := Clicked\<rparr>
   \<and> customers (handleOpenFunnel ''c1'' (initial_state
       \<lparr>customers := [(new_customer ''c1'' ''Asha'' ''9876543210'' 0)\<lparr>c_status := Sent\<rparr>,
                      new_customer ''c2'' ''Ravi'' ''9876543211'' 0]\<rparr>)) ! 1
     = new_customer ''c2'' ''Ravi'' ''9876543211'' 0
   \<and> activityLogs (handleOpenFunnel ''c1'' (initial_state
       \<lparr>customers := [(new_customer ''c1'' ''Asha'' ''9876543210'' 0)\<lparr>c_status := Sent\<rparr>,
                      new_customer ''c2'' ''Ravi'' ''9876543211'' 0]\<rparr>))
     = [\<lparr>l_customerName = ''Asha'', l_action = ''Clicked review link (simulation)''\<rparr>]"
proof -
  let ?s = "initial_state
       \<lparr>customers := [(new_customer ''c1'' ''Asha'' ''9876543210'' 0)\<lparr>c_status := Sent\<rparr>,
                      new_customer ''c2'' ''Ravi'' ''9876543211'' 0]\<rparr>"
  have n: "find (\<lambda>c. c_id c = ''zz'') (customers ?s) = None"
    by (simp add: initial_state_def new_customer_def)
  have f: "find (\<lambda>c. c_id c = ''c1'') (customers ?s)
      = Some ((new_customer ''c1'' ''Asha'' ''9876543210'' 0)\<lparr>c_status := Sent\<rparr>)"
    by (simp add: initial_state_def new_customer_def)
  have l: "length (customers ?s) = 2" "customers ?s ! 0 = (new_customer ''c1'' ''Asha'' ''9876543210'' 0)\<lparr>c_status := Sent\<rparr>"
    "customers ?s ! 1 = new_customer ''c2'' ''Ravi'' ''9876543211'' 0"
    "activityLogs ?s = []"
    by (simp_all add: initial_state_def)
  have z: "handleOpenFunnel ''zz'' ?s = ?s"
    using handleOpenFunnel_sets_clicked [of "''zz''" ?s] n by blast
  have c: "length (customers (handleOpenFunnel ''c1'' ?s)) = length (customers ?s)
        \<and> (\<forall>i < length (customers ?s).
              customers (handleOpenFunnel ''c1'' ?s) ! i =
                (if c_id (customers ?s ! i) = ''c1''
                 then (customers ?s ! i)\<lparr>c_status := Clicked\<rparr>
                 else customers ?s ! i))
        \<and> activityLogs (handleOpenFunnel ''c1'' ?s) =
            \<lparr>l_customerName = c_name ((new_customer ''c1'' ''Asha'' ''9876543210'' 0)\<lparr>c_status := Sent\<rparr>),
              l_action = ''Clicked review link (simulation)''\<rparr>
              # activityLogs ?s"
    using handleOpenFunnel_sets_clicked [of "''c1''" ?s] f by blast
  have c0: "customers (handleOpenFunnel ''c1'' ?s) ! 0
      = (new_customer ''c1'' ''Asha'' ''9876543210'' 0)\<lparr>c_status := Clicked\<rparr>"
    using c l by (simp add: new_customer_def)
  have c1: "customers (handleOpenFunnel ''c1'' ?s) ! 1 = new_customer ''c2'' ''Ravi'' ''9876543211'' 0"
    using c l by (simp add: new_customer_def)
  have lg: "activityLogs (handleOpenFunnel ''c1'' ?s)
     = [\<lparr>l_customerName = ''Asha'', l_action = ''Clicked review link (simulation)''\<rparr>]"
    using c l by (simp add: new_customer_def)
  show ?thesis
    using n z f c0 c1 lg by simp
qed

section \<open>Feedback entries (App.tsx, addFeedback)\<close>

text \<open>\<open>Array.prototype.findIndex\<close>, with \<open>None\<close> for \<open>-1\<close>.\<close>

primrec findIndex :: "('a \<Rightarrow> bool) \<Rightarrow> 'a list \<Rightarrow> nat option" where
  "findIndex P [] = None"
| "findIndex P (x # xs) = (if P x then Some 0 else map_option Suc (findIndex P xs))"

text \<open>\<open>c.feedback || []\<close>\<close>

definition feedback_of :: "Customer \<Rightarrow> FeedbackEntry list" where
  "feedback_of c = (case c_feedback c of None \<Rightarrow> [] | Some f \<Rightarrow> f)"

text \<open>The helper \<open>appendAt\<close>: the entry goes to the end of the feedback at one index.\<close>

definition appendAt :: "Customer list \<Rightarrow> nat \<Rightarrow> FeedbackEntry \<Rightarrow> Customer list" where
  "appendAt arr index newEntry =
     map (\<lambda>(i, c). if i = index then c\<lparr>c_feedback := Some (feedback_of c @ [newEntry])\<rparr> else c)
       (enumerate 0 arr)"

text \<open>The helper \<open>norm\<close>: \<open>s.replace(/\D/g, "")\<close> keeps the digits.\<close>

definition norm_digits :: "string \<Rightarrow> string" where
  "norm_digits s = filter is_digit s"

text \<open>
  The entry \<open>addFeedback\<close> builds. Its id and date come from the random number generator
  and the clock; they are the first two arguments.
\<close>

definition newEntry ::
  "string \<Rightarrow> nat \<Rightarrow> string \<Rightarrow> Sentiment \<Rightarrow> string option \<Rightarrow> int option \<Rightarrow> FeedbackEntry" where
  "newEntry entryId now text sentiment phone rating =
     \<lparr>fb_id = entryId, fb_text = trim text, fb_sentiment = sentiment, fb_date = now,
      fb_phone = phone, fb_rating = rating\<rparr>"

text \<open>The synthetic customer \<open>bucket\<close> that takes feedback nobody else matches.\<close>

definition bucket :: "nat \<Rightarrow> FeedbackEntry \<Rightarrow> Customer" where
  "bucket now e =
     \<lparr>c_id = ''public-feedback'', c_name = ''Public Feedback'', c_phone = ''N/A'',
      c_status = Reviewed, c_addedAt = now, c_rating = None, c_feedback = Some [e]\<rparr>"

text \<open>\<open>addFeedback\<close>: the update it passes to \<open>setCustomers\<close>.\<close>

definition addFeedback ::
  "string \<Rightarrow> nat \<Rightarrow> string \<Rightarrow> string \<Rightarrow> Sentiment \<Rightarrow> string option \<Rightarrow> int option
   \<Rightarrow> AppState \<Rightarrow> AppState" where
  "addFeedback entryId now customerId text sentiment phone rating s =
     (let e = newEntry entryId now text sentiment phone rating;
          prev = customers s
      in s\<lparr>customers :=
           (case findIndex (\<lambda>c. c_id c = customerId) prev of
              Some idx \<Rightarrow> appendAt prev idx e
            | None \<Rightarrow>
                (case (if truthy phone
                       then findIndex (\<lambda>c. norm_digits (c_phone c) = norm_digits (str phone)) prev
                       else None) of
                   Some idx \<Rightarrow> appendAt prev idx e
                 | None \<Rightarrow>
                     (case findIndex (\<lambda>c. c_id c = ''public-feedback'') prev of
                        Some existingBucketIdx \<Rightarrow> appendAt prev existingBucketIdx e
                      | None \<Rightarrow> bucket now e # prev)))\<rparr>)"

text \<open>The first position of a list at which a predicate holds.\<close>

definition first_index :: "('a \<Rightarrow> bool) \<Rightarrow> 'a list \<Rightarrow> nat \<Rightarrow> bool" where
  "first_index P xs i = (i < length xs \<and> P (xs ! i) \<and> (\<forall>j<i. \<not> P (xs ! j)))"

text \<open>A customer with one more entry at the end of its feedback.\<close>

definition with_entry :: "FeedbackEntry \<Rightarrow> Customer \<Rightarrow> Customer" where
  "with_entry e c = c\<lparr>c_feedback := Some (feedback_of c @ [e])\<rparr>"

text \<open>The number of feedback entries held by a list of customers.\<close>

definition feedback_count :: "Customer list \<Rightarrow> nat" where
  "feedback_count cs = sum_list (map (\<lambda>c. length (feedback_of c)) cs)"

lemma findIndex_None: "findIndex P xs = None \<longleftrightarrow> (\<forall>x \<in> set xs. \<not> P x)"
  by (induction xs) auto

lemma findIndex_Some: "findIndex P xs = Some i \<Longrightarrow> first_index P xs i"
proof (induction xs arbitrary: i)
  case Nil
  then show ?case by simp
next
  case (Cons x xs)
  show ?case
  proof (cases "P x")
    case True
    then show ?thesis using Cons.prems by (simp add: first_index_def)
  next
    case False
    then obtain k where k: "findIndex P xs = Some k" and i: "i = Suc k"
      using Cons.prems by auto
    have "first_index P xs k" using Cons.IH [OF k] .
    then show ?thesis
      using False i by (auto simp: first_index_def less_Suc_eq_0_disj)
  qed
qed

lemma findIndex_exists: "\<exists>x \<in> set xs. P x \<Longrightarrow> \<exists>i. findIndex P xs = Some i"
  using findIndex_None [of P xs] by (cases "findIndex P xs") auto

lemma appendAt_update:
  assumes "i < length arr"
  shows "appendAt arr i e = arr[i := with_entry e (arr ! i)]"
proof (rule nth_equalityI)
  show "length (appendAt arr i e) = length (arr[i := with_entry e (arr ! i)])"
    by (simp add: appendAt_def)
next
  fix k assume "k < length (appendAt arr i e)"
  then have k: "k < length arr" by (simp add: appendAt_def)
  then show "appendAt arr i e ! k = arr[i := with_entry e (arr ! i)] ! k"
    using assms by (simp add: appendAt_def nth_enumerate_eq with_entry_def nth_list_update)
qed

lemma feedback_count_update:
  "i < length cs \<Longrightarrow> feedback_count (cs[i := with_entry e (cs ! i)]) = feedback_count cs + 1"
proof (induction cs arbitrary: i)
  case Nil
  then show ?case by simp
next
  case (Cons c cs)
  show ?case
  proof (cases i)
    case 0
    then show ?thesis
      by (simp add: feedback_count_def with_entry_def feedback_of_def)
  next
    case (Suc k)
    then have "k < length cs" using Cons.prems by simp
    from Cons.IH [OF this] show ?thesis
      using Suc by (simp add: feedback_count_def)
  qed
qed

lemma addFeedback_at:
  assumes "findIndex P prev = Some i"
  shows "first_index P prev i
         \<and> appendAt prev i e = prev[i := with_entry e (prev ! i)]
         \<and> feedback_count (prev[i := with_entry e (prev ! i)]) = feedback_count prev + 1"
proof -
  have f: "first_index P prev i" using assms by (rule findIndex_Some)
  then have l: "i < length prev" by (simp add: first_index_def)
  show ?thesis
    using f appendAt_update [OF l] feedback_count_update [OF l] by simp
qed


text \<open>
  C10. Every call of \<open>addFeedback\<close> adds exactly one entry to exactly one customer and
  changes nothing else in the list. The entry goes to the end of the feedback of the first
  customer whose id is \<open>customerId\<close>; if there is none and a phone is given, of the first
  customer whose phone has the same digits; otherwise of the first customer with the id
  "public-feedback"; and if that one is absent too, a customer with the id
  "public-feedback", the name "Public Feedback", the status \<open>Reviewed\<close> and the entry as
  its only feedback is put in front of the list. The number of entries grows by one.
\<close>

theorem addFeedback_appends_one:
  "(let e = newEntry entryId now ftext sentiment phone rating;
        prev = customers s;
        r = customers (addFeedback entryId now customerId ftext sentiment phone rating s);
        byId = (\<lambda>c. c_id c = customerId);
        byPhone = (\<lambda>c. norm_digits (c_phone c) = norm_digits (str phone));
        isBucket = (\<lambda>c. c_id c = ''public-feedback'')
    in ((\<exists>c \<in> set prev. byId c) \<longrightarrow>
          (\<exists>i. first_index byId prev i \<and> r = prev[i := with_entry e (prev ! i)]))
     \<and> (\<not> (\<exists>c \<in> set prev. byId c) \<and> truthy phone \<and> (\<exists>c \<in> set prev. byPhone c) \<longrightarrow>
          (\<exists>i. first_index byPhone prev i \<and> r = prev[i := with_entry e (prev ! i)]))
     \<and> (\<not> (\<exists>c \<in> set prev. byId c) \<and> \<not> (truthy phone \<and> (\<exists>c \<in> set prev. byPhone c))
          \<and> (\<exists>c \<in> set prev. isBucket c) \<longrightarrow>
          (\<exists>i. first_index isBucket prev i \<and> r = prev[i := with_entry e (prev ! i)]))
     \<and> (\<not> (\<exists>c \<in> set prev. byId c) \<and> \<not> (truthy phone \<and> (\<exists>c \<in> set prev. byPhone c))
          \<and> \<not> (\<exists>c \<in> set prev. isBucket c) \<longrightarrow>
          r = bucket now e # prev
          \<and> c_name (bucket now e) = ''Public Feedback''
          \<and> c_status (bucket now e) = Reviewed
          \<and> feedback_of (bucket now e) = [e])
     \<and> feedback_count r = feedback_count prev + 1)"
proof -
  define e where "e = newEntry entryId now ftext sentiment phone rating"
  define prev where "prev = customers s"
  define byId :: "Customer \<Rightarrow> bool" where "byId = (\<lambda>c. c_id c = customerId)"
  define byPhone :: "Customer \<Rightarrow> bool" where "byPhone = (\<lambda>c. norm_digits (c_phone c) = norm_digits (str phone))"
  define isBucket :: "Customer \<Rightarrow> bool" where "isBucket = (\<lambda>c. c_id c = ''public-feedback'')"
  define phoneIdx where "phoneIdx = (if truthy phone then findIndex byPhone prev else None)"
  define r where "r = customers (addFeedback entryId now customerId ftext sentiment phone rating s)"
  have r: "r = (case findIndex byId prev of
              Some idx \<Rightarrow> appendAt prev idx e
            | None \<Rightarrow>
                (case phoneIdx of
                   Some idx \<Rightarrow> appendAt prev idx e
                 | None \<Rightarrow>
                     (case findIndex isBucket prev of
                        Some idx \<Rightarrow> appendAt prev idx e
                      | None \<Rightarrow> bucket now e # prev)))"
    unfolding r_def addFeedback_def Let_def e_def prev_def byId_def byPhone_def
      isBucket_def phoneIdx_def
    by simp
  have ex: "(\<exists>c \<in> set prev. P c) \<longleftrightarrow> findIndex P prev \<noteq> None" for P :: "Customer \<Rightarrow> bool"
    by (simp add: findIndex_None)
  have ph: "(truthy phone \<and> (\<exists>c \<in> set prev. byPhone c)) \<longleftrightarrow> phoneIdx \<noteq> None"
    by (simp add: phoneIdx_def ex)
  have phf: "phoneIdx = Some i \<Longrightarrow> findIndex byPhone prev = Some i" for i
    by (simp add: phoneIdx_def split: if_splits)
  have at: "first_index P prev i \<and> appendAt prev i e = prev[i := with_entry e (prev ! i)]
            \<and> feedback_count (prev[i := with_entry e (prev ! i)]) = feedback_count prev + 1"
    if "findIndex P prev = Some i" for P :: "Customer \<Rightarrow> bool" and i
    using that by (rule addFeedback_at)
  have bk: "feedback_count (bucket now e # prev) = feedback_count prev + 1
            \<and> c_name (bucket now e) = ''Public Feedback''
            \<and> c_status (bucket now e) = Reviewed
            \<and> feedback_of (bucket now e) = [e]"
    by (simp add: feedback_count_def bucket_def feedback_of_def)
  have c1: "\<exists>i. first_index byId prev i \<and> r = prev[i := with_entry e (prev ! i)]"
    if h: "\<exists>c \<in> set prev. byId c"
  proof -
    obtain i where i: "findIndex byId prev = Some i" using h ex [of byId] by auto
    show ?thesis using at [OF i] by (auto simp: r i)
  qed
  have c2: "\<exists>i. first_index byPhone prev i \<and> r = prev[i := with_entry e (prev ! i)]"
    if h1: "\<not> (\<exists>c \<in> set prev. byId c)" and h2: "truthy phone"
      and h3: "\<exists>c \<in> set prev. byPhone c"
  proof -
    have n: "findIndex byId prev = None" using h1 ex [of byId] by simp
    obtain i where i: "phoneIdx = Some i" using h2 h3 ph by auto
    show ?thesis using at [OF phf [OF i]] by (auto simp: r n i)
  qed
  have c3: "\<exists>i. first_index isBucket prev i \<and> r = prev[i := with_entry e (prev ! i)]"
    if h1: "\<not> (\<exists>c \<in> set prev. byId c)"
      and h2: "\<not> (truthy phone \<and> (\<exists>c \<in> set prev. byPhone c))"
      and h3: "\<exists>c \<in> set prev. isBucket c"
  proof -
    have n: "findIndex byId prev = None" using h1 ex [of byId] by simp
    have p: "phoneIdx = None" using h2 ph by simp
    obtain i where i: "findIndex isBucket prev = Some i" using h3 ex [of isBucket] by auto
    show ?thesis using at [OF i] by (auto simp: r n p i)
  qed
  have c4: "r = bucket now e # prev"
    if "\<not> (\<exists>c \<in> set prev. byId c)" and "\<not> (truthy phone \<and> (\<exists>c \<in> set prev. byPhone c))"
      and "\<not> (\<exists>c \<in> set prev. isBucket c)"
  proof -
    have n: "findIndex byId prev = None" using that(1) ex [of byId] by simp
    have p: "phoneIdx = None" using that(2) ph by simp
    have b: "findIndex isBucket prev = None" using that(3) ex [of isBucket] by simp
    show ?thesis by (simp add: r n p b)
  qed
  have c5: "feedback_count r = feedback_count prev + 1"
  proof (cases "findIndex byId prev")
    case (Some i)
    then show ?thesis using at [OF Some] by (simp add: r)
  next
    case n: None
    show ?thesis
    proof (cases phoneIdx)
      case (Some i)
      then show ?thesis using at [OF phf [OF Some]] by (simp add: r n)
    next
      case p: None
      show ?thesis
      proof (cases "findIndex isBucket prev")
        case (Some i)
        then show ?thesis using at [OF Some] by (simp add: r n p)
      next
        case None
        then show ?thesis using bk by (simp add: r n p)
      qed
    qed
  qed
  have "((\<exists>c \<in> set prev. byId c) \<longrightarrow>
          (\<exists>i. first_index byId prev i \<and> r = prev[i := with_entry e (prev ! i)]))
     \<and> (\<not> (\<exists>c \<in> set prev. byId c) \<and> truthy phone \<and> (\<exists>c \<in> set prev. byPhone c) \<longrightarrow>
          (\<exists>i. first_index byPhone prev i \<and> r = prev[i := with_entry e (prev ! i)]))
     \<and> (\<not> (\<exists>c \<in> set prev. byId c) \<and> \<not> (truthy phone \<and> (\<exists>c \<in> set prev. byPhone c))
          \<and> (\<exists>c \<in> set prev. isBucket c) \<longrightarrow>
          (\<exists>i. first_index isBucket prev i \<and> r = prev[i := with_entry e (prev ! i)]))
     \<and> (\<not> (\<exists>c \<in> set prev. byId c) \<and> \<not> (truthy phone \<and> (\<exists>c \<in> set prev. byPhone c))
          \<and> \<not> (\<exists>c \<in> set prev. isBucket c) \<longrightarrow>
          r = bucket now e # prev
          \<and> c_name (bucket now e) = ''Public Feedback''
          \<and> c_status (bucket now e) = Reviewed
          \<and> feedback_of (bucket now e) = [e])
     \<and> feedback_count r = feedback_count prev + 1"
    using c1 c2 c3 c4 c5 bk by blast
  then show ?thesis
    unfolding Let_def e_def prev_def byId_def byPhone_def isBucket_def r_def .
qed

theorem addFeedback_appends_one_witness:
  "(\<exists>i. first_index (\<lambda>c. c_id c = ''c2'')
          [new_customer ''c1'' ''Asha'' ''98765 43210'' 0,
           new_customer ''c2'' ''Ravi'' ''+14155552671'' 0] i
       \<and> customers (addFeedback ''fb-1'' 7 ''c2'' ''Great'' Positive None None
            (initial_state\<lparr>customers :=
               [new_customer ''c1'' ''Asha'' ''98765 43210'' 0,
                new_customer ''c2'' ''Ravi'' ''+14155552671'' 0]\<rparr>))
         = [new_customer ''c1'' ''Asha'' ''98765 43210'' 0,
            new_customer ''c2'' ''Ravi'' ''+14155552671'' 0]
           [i := with_entry (newEntry ''fb-1'' 7 ''Great'' Positive None None)
                   ([new_customer ''c1'' ''Asha'' ''98765 43210'' 0,
                     new_customer ''c2'' ''Ravi'' ''+14155552671'' 0] ! i)])
   \<and> (\<exists>i. first_index (\<lambda>c. norm_digits (c_phone c) = norm_digits ''(98765) 43210'')
          [new_customer ''c1'' ''Asha'' ''98765 43210'' 0,
           new_customer ''c2'' ''Ravi'' ''+14155552671'' 0] i
       \<and> customers (addFeedback ''fb-2'' 8 ''walk-in'' ''Slow'' Negative
            (Some ''(98765) 43210'') (Some 2)
            (initial_state\<lparr>customers :=
               [new_customer ''c1'' ''Asha'' ''98765 43210'' 0,
                new_customer ''c2'' ''Ravi'' ''+14155552671'' 0]\<rparr>))
         = [new_customer ''c1'' ''Asha'' ''98765 43210'' 0,
            new_customer ''c2'' ''Ravi'' ''+14155552671'' 0]
           [i := with_entry
                   (newEntry ''fb-2'' 8 ''Slow'' Negative (Some ''(98765) 43210'') (Some 2))
                   ([new_customer ''c1'' ''Asha'' ''98765 43210'' 0,
                     new_customer ''c2'' ''Ravi'' ''+14155552671'' 0] ! i)])
   \<and> customers (addFeedback ''fb-3'' 9 ''walk-in'' ''Fine'' Positive None None
        (initial_state\<lparr>customers :=
           [new_customer ''c1'' ''Asha'' ''98765 43210'' 0,
            new_customer ''c2'' ''Ravi'' ''+14155552671'' 0]\<rparr>))
     = bucket 9 (newEntry ''fb-3'' 9 ''Fine'' Positive None None)
       # [new_customer ''c1'' ''Asha'' ''98765 43210'' 0,
          new_customer ''c2'' ''Ravi'' ''+14155552671'' 0]
   \<and> feedback_count (customers (addFeedback ''fb-3'' 9 ''walk-in'' ''Fine'' Positive None None
        (initial_state\<lparr>customers :=
           [new_customer ''c1'' ''Asha'' ''98765 43210'' 0,
            new_customer ''c2'' ''Ravi'' ''+14155552671'' 0]\<rparr>))) = 1"
proof -
  let ?s = "initial_state\<lparr>customers :=
               [new_customer ''c1'' ''Asha'' ''98765 43210'' 0,
                new_customer ''c2'' ''Ravi'' ''+14155552671'' 0]\<rparr>"
  have ids: "c_id (new_customer ''c1'' ''Asha'' ''98765 43210'' 0) = ''c1''"
    "c_id (new_customer ''c2'' ''Ravi'' ''+14155552671'' 0) = ''c2''"
    "c_phone (new_customer ''c1'' ''Asha'' ''98765 43210'' 0) = ''98765 43210''"
    "c_phone (new_customer ''c2'' ''Ravi'' ''+14155552671'' 0) = ''+14155552671''"
    "feedback_of (new_customer ''c1'' ''Asha'' ''98765 43210'' 0) = []"
    "feedback_of (new_customer ''c2'' ''Ravi'' ''+14155552671'' 0) = []"
    by (simp_all add: new_customer_def feedback_of_def)
  have nd: "norm_digits ''98765 43210'' = ''9876543210''"
    "norm_digits ''(98765) 43210'' = ''9876543210''"
    "norm_digits ''+14155552671'' = ''14155552671''"
    by (simp_all add: norm_digits_def is_digit_def)
  have a: "\<exists>i. first_index (\<lambda>c. c_id c = ''c2'')
          [new_customer ''c1'' ''Asha'' ''98765 43210'' 0,
           new_customer ''c2'' ''Ravi'' ''+14155552671'' 0] i
       \<and> customers (addFeedback ''fb-1'' 7 ''c2'' ''Great'' Positive None None ?s)
         = [new_customer ''c1'' ''Asha'' ''98765 43210'' 0,
            new_customer ''c2'' ''Ravi'' ''+14155552671'' 0]
           [i := with_entry (newEntry ''fb-1'' 7 ''Great'' Positive None None)
                   ([new_customer ''c1'' ''Asha'' ''98765 43210'' 0,
                     new_customer ''c2'' ''Ravi'' ''+14155552671'' 0] ! i)]"
    using addFeedback_appends_one [where customerId = "''c2''" and s = ?s and entryId = "''fb-1''"
        and now = 7 and ftext = "''Great''" and sentiment = Positive and phone = None
        and rating = None]
    by (simp add: Let_def ids)
  have b: "\<exists>i. first_index (\<lambda>c. norm_digits (c_phone c) = norm_digits ''(98765) 43210'')
          [new_customer ''c1'' ''Asha'' ''98765 43210'' 0,
           new_customer ''c2'' ''Ravi'' ''+14155552671'' 0] i
       \<and> customers (addFeedback ''fb-2'' 8 ''walk-in'' ''Slow'' Negative
            (Some ''(98765) 43210'') (Some 2) ?s)
         = [new_customer ''c1'' ''Asha'' ''98765 43210'' 0,
            new_customer ''c2'' ''Ravi'' ''+14155552671'' 0]
           [i := with_entry
                   (newEntry ''fb-2'' 8 ''Slow'' Negative (Some ''(98765) 43210'') (Some 2))
                   ([new_customer ''c1'' ''Asha'' ''98765 43210'' 0,
                     new_customer ''c2'' ''Ravi'' ''+14155552671'' 0] ! i)]"
    using addFeedback_appends_one [where customerId = "''walk-in''" and s = ?s
        and entryId = "''fb-2''" and now = 8 and ftext = "''Slow''" and sentiment = Negative
        and phone = "Some ''(98765) 43210''" and rating = "Some 2"]
    by (simp add: Let_def ids nd str_def truthy_def)
  have c: "customers (addFeedback ''fb-3'' 9 ''walk-in'' ''Fine'' Positive None None ?s)
     = bucket 9 (newEntry ''fb-3'' 9 ''Fine'' Positive None None)
       # [new_customer ''c1'' ''Asha'' ''98765 43210'' 0,
          new_customer ''c2'' ''Ravi'' ''+14155552671'' 0]
     \<and> feedback_count (customers (addFeedback ''fb-3'' 9 ''walk-in'' ''Fine'' Positive None None ?s)) = 1"
    using addFeedback_appends_one [where customerId = "''walk-in''" and s = ?s
        and entryId = "''fb-3''" and now = 9 and ftext = "''Fine''" and sentiment = Positive
        and phone = None and rating = None]
    by (simp add: Let_def ids truthy_def feedback_count_def)
  show ?thesis
    by (intro conjI a b c [THEN conjunct1] c [THEN conjunct2])
qed

section \<open>The skip guard of the drain\<close>

text \<open>
  The guard of the \<open>for\<close> loop, as a predicate on the list the lookup reads: no customer
  has the id, or the first customer with the id is not \<open>Pending\<close>.
\<close>

definition skipped :: "string \<Rightarrow> Customer list \<Rightarrow> bool" where
  "skipped x cs =
     (case find (\<lambda>c. c_id c = x) cs of
        None \<Rightarrow> True
      | Some c \<Rightarrow> c_status c \<noteq> Pending)"

text \<open>The customers that carry a given id, in list order.\<close>

definition with_id :: "string \<Rightarrow> Customer list \<Rightarrow> Customer list" where
  "with_id x cs = filter (\<lambda>c. c_id c = x) cs"

lemma find_with_id:
  "find (\<lambda>c. c_id c = x) cs = (case with_id x cs of [] \<Rightarrow> None | y # ys \<Rightarrow> Some y)"
  by (induction cs) (auto simp: with_id_def)

lemma skipped_with_id: "with_id x cs' = with_id x cs \<Longrightarrow> skipped x cs' = skipped x cs"
  by (simp add: skipped_def find_with_id)

lemma with_id_set_status:
  "cid \<noteq> x \<Longrightarrow>
   with_id x (map (\<lambda>c. if c_id c = cid then c\<lparr>c_status := st\<rparr> else c) cs) = with_id x cs"
  by (induction cs) (auto simp: with_id_def)

lemma sendSmsToCustomer_customers:
  "\<exists>st. customers (sendSmsToCustomer cfg fetch cust s) =
          map (\<lambda>c. if c_id c = c_id cust then c\<lparr>c_status := st\<rparr> else c) (customers s)"
  by (auto simp: sendSmsToCustomer_def logActivity_def set_status_def Let_def
      split: FetchResult.split option.split)

lemma sendSmsToCustomer_trace:
  "trace_sends (sendSmsToCustomer cfg fetch cust s) = trace_sends s @ [c_id cust]"
  by (simp add: sendSmsToCustomer_def logActivity_def set_status_def Let_def
      split: FetchResult.split option.split)

lemma sendSmsToCustomer_other:
  assumes "c_id cust \<noteq> x"
  shows "with_id x (customers (sendSmsToCustomer cfg fetch cust s)) = with_id x (customers s)
         \<and> count_list (trace_sends (sendSmsToCustomer cfg fetch cust s)) x
             = count_list (trace_sends s) x"
proof -
  obtain st where "customers (sendSmsToCustomer cfg fetch cust s) =
      map (\<lambda>c. if c_id c = c_id cust then c\<lparr>c_status := st\<rparr> else c) (customers s)"
    using sendSmsToCustomer_customers by blast
  then show ?thesis
    using assms by (simp add: with_id_set_status sendSmsToCustomer_trace)
qed

lemma process_id_skipped:
  assumes "skipped x snap"
  shows "with_id x (customers (process_id cfg fetch snap s i)) = with_id x (customers s)
         \<and> count_list (trace_sends (process_id cfg fetch snap s i)) x
             = count_list (trace_sends s) x"
proof (cases "find (\<lambda>c. c_id c = i) snap")
  case None
  then show ?thesis by (simp add: process_id_def)
next
  case (Some cust)
  then have ci: "c_id cust = i" by (auto simp: find_Some_iff)
  show ?thesis
  proof (cases "c_status cust = Pending")
    case False
    then show ?thesis using Some by (simp add: process_id_def)
  next
    case True
    have "i \<noteq> x"
    proof
      assume "i = x"
      then have "\<not> skipped x snap" using Some True by (simp add: skipped_def)
      then show False using assms by simp
    qed
    then have "c_id cust \<noteq> x" using ci by simp
    from sendSmsToCustomer_other [OF this] show ?thesis
      using Some True by (simp add: process_id_def)
  qed
qed

lemma foldl_process_id_skipped:
  assumes "skipped x snap"
  shows "with_id x (customers (foldl (process_id cfg fetch snap) s ids)) = with_id x (customers s)
         \<and> count_list (trace_sends (foldl (process_id cfg fetch snap) s ids)) x
             = count_list (trace_sends s) x"
proof (induction ids arbitrary: s)
  case Nil
  then show ?case by simp
next
  case (Cons i ids)
  show ?case
    using Cons.IH [of "process_id cfg fetch snap s i"] process_id_skipped [OF assms, of cfg fetch s i]
    by simp
qed

lemma run_effect_skipped:
  assumes "skipped x (customers s)"
  shows "with_id x (customers (run_effect cfg fetch s)) = with_id x (customers s)
         \<and> count_list (trace_sends (run_effect cfg fetch s)) x = count_list (trace_sends s) x"
proof (cases "queueActive s \<or> smsQueue s = []")
  case True
  then show ?thesis by (auto simp: run_effect_def)
next
  case False
  let ?s1 = "s\<lparr>queueActive := True,
                 smsQueue := drop (length (take 10 (smsQueue s))) (smsQueue s),
                 trace_batches := trace_batches s @ [take 10 (smsQueue s)]\<rparr>"
  have "run_effect cfg fetch s
      = (foldl (process_id cfg fetch (customers s)) ?s1 (take 10 (smsQueue s)))\<lparr>queueActive := False\<rparr>"
    using False by (simp add: run_effect_def Let_def)
  then show ?thesis
    using foldl_process_id_skipped [OF assms, of cfg fetch ?s1 "take 10 (smsQueue s)"]
    by simp
qed

lemma drain_skipped:
  "skipped x (customers s) \<Longrightarrow>
   with_id x (customers (drain cfg fetch s)) = with_id x (customers s)
   \<and> count_list (trace_sends (drain cfg fetch s)) x = count_list (trace_sends s) x"
proof (induction cfg fetch s rule: drain.induct)
  case (1 cfg fetch s)
  show ?case
  proof (cases "queueActive s \<or> smsQueue s = []")
    case True
    then show ?thesis by (subst (1 2) drain.simps) simp
  next
    case False
    have r: "with_id x (customers (run_effect cfg fetch s)) = with_id x (customers s)
         \<and> count_list (trace_sends (run_effect cfg fetch s)) x = count_list (trace_sends s) x"
      using run_effect_skipped [OF "1.prems"] .
    then have "skipped x (customers (run_effect cfg fetch s))"
      using "1.prems" skipped_with_id by blast
    from "1.IH" [OF False this] have
      "with_id x (customers (drain cfg fetch (run_effect cfg fetch s)))
         = with_id x (customers (run_effect cfg fetch s))
       \<and> count_list (trace_sends (drain cfg fetch (run_effect cfg fetch s))) x
         = count_list (trace_sends (run_effect cfg fetch s)) x" .
    moreover have "drain cfg fetch s = drain cfg fetch (run_effect cfg fetch s)"
      using False by (subst drain.simps) simp
    ultimately show ?thesis using r by simp
  qed
qed

text \<open>
  What the guard does ensure, read against the state in which the drain starts: for an
  id whose lookup finds no customer then, or a customer that is not \<open>Pending\<close> then,
  \<open>sendSmsToCustomer\<close> is never called during the drain, whatever ids are enqueued, and
  the customers with that id stay as they were. It says nothing about a customer that
  stops being \<open>Pending\<close> while the drain runs.
\<close>

lemma drain_skips_non_pending:
  assumes "skipped x (customers s)"
  shows "count_list (trace_sends (drain cfg fetch (enqueueSmsCustomers ids s))) x
           = count_list (trace_sends s) x
         \<and> with_id x (customers (drain cfg fetch (enqueueSmsCustomers ids s)))
           = with_id x (customers s)
         \<and> (\<forall>c. find (\<lambda>c. c_id c = x) (customers s) = Some c \<and> c_status c = Reviewed \<longrightarrow>
              find (\<lambda>c. c_id c = x) (customers (drain cfg fetch (enqueueSmsCustomers ids s)))
                = Some c)"
proof -
  let ?s = "enqueueSmsCustomers ids s"
  have c: "customers ?s = customers s" and t: "trace_sends ?s = trace_sends s"
    by (simp_all add: enqueueSmsCustomers_def)
  have "skipped x (customers ?s)" using assms c by simp
  from drain_skipped [OF this, of cfg fetch]
  have d: "with_id x (customers (drain cfg fetch ?s)) = with_id x (customers s)"
    and n: "count_list (trace_sends (drain cfg fetch ?s)) x = count_list (trace_sends s) x"
    by (simp_all add: c t)
  have "find (\<lambda>c. c_id c = x) (customers (drain cfg fetch ?s))
      = find (\<lambda>c. c_id c = x) (customers s)"
    by (simp add: find_with_id d)
  then show ?thesis using d n by simp
qed


lemma drain_skips_non_pending_example:
  "skipped ''c1'' (customers (initial_state\<lparr>customers :=
       [(new_customer ''c1'' ''Asha'' ''9876543210'' 0)\<lparr>c_status := Reviewed\<rparr>,
        new_customer ''c2'' ''Ravi'' ''9876543211'' 0]\<rparr>))
   \<and> count_list (trace_sends (drain
        \<lparr>twilioAccountSid = ''AC1'', twilioAuthToken = ''tok'',
         twilioPhoneNumber = ''+14155552671'', render_body = (\<lambda>n p. ''Hi '' @ n)\<rparr>
        (\<lambda>req. Response 200
           (Some \<lparr>d_success = True, d_error = None, d_code = None, d_hint = None\<rparr>) [])
        (enqueueSmsCustomers [''c1'', ''c2'', ''c1'']
           (initial_state\<lparr>customers :=
              [(new_customer ''c1'' ''Asha'' ''9876543210'' 0)\<lparr>c_status := Reviewed\<rparr>,
               new_customer ''c2'' ''Ravi'' ''9876543211'' 0]\<rparr>)))) ''c1'' = 0
   \<and> find (\<lambda>c. c_id c = ''c1'') (customers (drain
        \<lparr>twilioAccountSid = ''AC1'', twilioAuthToken = ''tok'',
         twilioPhoneNumber = ''+14155552671'', render_body = (\<lambda>n p. ''Hi '' @ n)\<rparr>
        (\<lambda>req. Response 200
           (Some \<lparr>d_success = True, d_error = None, d_code = None, d_hint = None\<rparr>) [])
        (enqueueSmsCustomers [''c1'', ''c2'', ''c1'']
           (initial_state\<lparr>customers :=
              [(new_customer ''c1'' ''Asha'' ''9876543210'' 0)\<lparr>c_status := Reviewed\<rparr>,
               new_customer ''c2'' ''Ravi'' ''9876543211'' 0]\<rparr>))))
     = Some ((new_customer ''c1'' ''Asha'' ''9876543210'' 0)\<lparr>c_status := Reviewed\<rparr>)"
proof -
  let ?s = "initial_state\<lparr>customers :=
       [(new_customer ''c1'' ''Asha'' ''9876543210'' 0)\<lparr>c_status := Reviewed\<rparr>,
        new_customer ''c2'' ''Ravi'' ''9876543211'' 0]\<rparr>"
  have f: "find (\<lambda>c. c_id c = ''c1'') (customers ?s)
      = Some ((new_customer ''c1'' ''Asha'' ''9876543210'' 0)\<lparr>c_status := Reviewed\<rparr>)"
    by (simp add: new_customer_def)
  have k: "skipped ''c1'' (customers ?s)"
    unfolding skipped_def f by (simp add: new_customer_def)
  have t: "trace_sends ?s = []"
    by (simp add: initial_state_def)
  have r: "c_status ((new_customer ''c1'' ''Asha'' ''9876543210'' 0)\<lparr>c_status := Reviewed\<rparr>)
      = Reviewed"
    by simp
  show ?thesis
    using k f t r
      drain_skips_non_pending [OF k,
        of "\<lparr>twilioAccountSid = ''AC1'', twilioAuthToken = ''tok'',
            twilioPhoneNumber = ''+14155552671'', render_body = (\<lambda>n p. ''Hi '' @ n)\<rparr>"
           "\<lambda>req. Response 200
              (Some \<lparr>d_success = True, d_error = None, d_code = None, d_hint = None\<rparr>) []"
           "[''c1'', ''c2'', ''c1'']"]
    by simp
qed


section \<open>Batches of the drain\<close>



text \<open>The request \<open>sendSmsToCustomer\<close> posts for a customer.\<close>

definition request_for :: "Settings \<Rightarrow> Customer \<Rightarrow> SmsRequest" where
  "request_for cfg customer =
     \<lparr>req_accountSid = Some (twilioAccountSid cfg),
      req_authToken = Some (twilioAuthToken cfg),
      req_from = Some (twilioPhoneNumber cfg),
      req_to = Some (c_phone customer),
      req_body = Some (render_body cfg (c_name customer) (c_phone customer)),
      req_statusCallback = None\<rparr>"

text \<open>
  The client's \<open>fetch\<close> when the request reaches the handler of /send-sms above and its
  answer comes back: the status and the JSON fields the client reads.
\<close>

definition server_fetch :: "string option \<Rightarrow> TwilioClient \<Rightarrow> Fetch" where
  "server_fetch envCallback twilio req =
     (let resp = fst (send_sms envCallback twilio req) in
      Response (r_status resp)
        (Some \<lparr>d_success = r_success resp, d_error = r_error resp, d_code = r_code resp,
               d_hint = r_hint resp\<rparr>) [])"

text \<open>A customer set to \<open>Sent\<close> when its id is in a set, and the log entry of a send.\<close>

definition mark_sent :: "string set \<Rightarrow> Customer \<Rightarrow> Customer" where
  "mark_sent A c = (if c_id c \<in> A then c\<lparr>c_status := Sent\<rparr> else c)"



















lemma request_for_mark_sent: "request_for cfg (mark_sent A c) = request_for cfg c"
  by (simp add: request_for_def mark_sent_def)










section \<open>A customer enqueued twice\<close>

text \<open>A provider that accepts every message.\<close>

definition accepting_twilio :: TwilioClient where
  "accepting_twilio accountSid authToken params = Inr ''SM1''"

text \<open>Settings with credentials and a template for the examples.\<close>

definition example_settings :: Settings where
  "example_settings =
     \<lparr>twilioAccountSid = ''AC1'', twilioAuthToken = ''tok'',
      twilioPhoneNumber = ''+14155550100'', render_body = (\<lambda>n p. ''Hi '' @ n)\<rparr>"

text \<open>
  C2. The claim is that an id taken from the backlog is not sent when its customer is not
  \<open>Pending\<close>. The loop looks the customer up in the \<open>customers\<close> array the effect closed
  over, and that array still says \<open>Pending\<close> for a customer the same chunk has already
  sent. Take one \<open>Pending\<close> customer whose id stands twice in the backlog, and a provider
  that accepts every message. The first pass of the loop sends and sets the status to
  \<open>Sent\<close>, so that the guard, read against the current list, would skip the id; the
  second pass sends again all the same. The drain ends with two calls of
  \<open>sendSmsToCustomer\<close>, two requests and two "Sent SMS" entries for the one customer.
\<close>

theorem drain_resends_duplicate:
  "map c_status (customers (process_id
        example_settings
        (server_fetch None accepting_twilio)
        [new_customer ''c1'' ''Asha'' ''9876543210'' 0]
        (initial_state\<lparr>customers := [new_customer ''c1'' ''Asha'' ''9876543210'' 0]\<rparr>) ''c1'')) = [Sent]
   \<and> skipped ''c1'' (customers (process_id
        example_settings
        (server_fetch None accepting_twilio)
        [new_customer ''c1'' ''Asha'' ''9876543210'' 0]
        (initial_state\<lparr>customers := [new_customer ''c1'' ''Asha'' ''9876543210'' 0]\<rparr>) ''c1''))
   \<and> trace_sends (process_id
        example_settings
        (server_fetch None accepting_twilio)
        [new_customer ''c1'' ''Asha'' ''9876543210'' 0]
        (process_id
        example_settings
        (server_fetch None accepting_twilio)
        [new_customer ''c1'' ''Asha'' ''9876543210'' 0]
        (initial_state\<lparr>customers := [new_customer ''c1'' ''Asha'' ''9876543210'' 0]\<rparr>) ''c1'') ''c1'') = [''c1'', ''c1'']
   \<and> trace_batches (drain
        example_settings
        (server_fetch None accepting_twilio)
        (enqueueSmsCustomers [''c1'', ''c1''] (initial_state\<lparr>customers := [new_customer ''c1'' ''Asha'' ''9876543210'' 0]\<rparr>))) = [[''c1'', ''c1'']]
   \<and> trace_sends (drain
        example_settings
        (server_fetch None accepting_twilio)
        (enqueueSmsCustomers [''c1'', ''c1''] (initial_state\<lparr>customers := [new_customer ''c1'' ''Asha'' ''9876543210'' 0]\<rparr>))) = [''c1'', ''c1'']
   \<and> length (trace_fetches (drain
        example_settings
        (server_fetch None accepting_twilio)
        (enqueueSmsCustomers [''c1'', ''c1''] (initial_state\<lparr>customers := [new_customer ''c1'' ''Asha'' ''9876543210'' 0]\<rparr>)))) = 2
   \<and> map c_status (customers (drain
        example_settings
        (server_fetch None accepting_twilio)
        (enqueueSmsCustomers [''c1'', ''c1''] (initial_state\<lparr>customers := [new_customer ''c1'' ''Asha'' ''9876543210'' 0]\<rparr>)))) = [Sent]
   \<and> activityLogs (drain
        example_settings
        (server_fetch None accepting_twilio)
        (enqueueSmsCustomers [''c1'', ''c1''] (initial_state\<lparr>customers := [new_customer ''c1'' ''Asha'' ''9876543210'' 0]\<rparr>)))
     = [\<lparr>l_customerName = ''Asha'', l_action = ''Sent SMS''\<rparr>,
        \<lparr>l_customerName = ''Asha'', l_action = ''Sent SMS''\<rparr>]"
proof -
  let ?cfg = "example_settings"
  let ?fetch = "server_fetch None accepting_twilio"
  let ?c = "new_customer ''c1'' ''Asha'' ''9876543210'' 0"
  let ?s0 = "initial_state\<lparr>customers := [?c]\<rparr>"
  let ?req = "\<lparr>req_accountSid = Some ''AC1'', req_authToken = Some ''tok'',
      req_from = Some ''+14155550100'', req_to = Some ''9876543210'',
      req_body = Some ''Hi Asha'', req_statusCallback = None\<rparr>"
  let ?sent = "\<lparr>c_id = ''c1'', c_name = ''Asha'', c_phone = ''9876543210'', c_status = Sent,
      c_addedAt = 0, c_rating = None, c_feedback = None\<rparr>"
  let ?log = "\<lparr>l_customerName = ''Asha'', l_action = ''Sent SMS''\<rparr>"
  have f: "?fetch ?req
      = Response 200 (Some \<lparr>d_success = True, d_error = None, d_code = None, d_hint = None\<rparr>) []"
    by code_simp
  have step: "process_id ?cfg ?fetch [?c] s ''c1''
      = s\<lparr>customers := map (\<lambda>c. if c_id c = ''c1'' then c\<lparr>c_status := Sent\<rparr> else c) (customers s),
           activityLogs := ?log # activityLogs s,
           trace_fetches := trace_fetches s @ [?req],
           trace_sends := trace_sends s @ [''c1'']\<rparr>" for s
    by (simp add: process_id_def sendSmsToCustomer_def new_customer_def f Let_def
        logActivity_def set_status_def example_settings_def)
  have p1: "process_id ?cfg ?fetch [?c] ?s0 ''c1''
      = \<lparr>customers = [?sent], activityLogs = [?log], smsQueue = [], queueActive = False,
         trace_fetches = [?req], trace_sends = [''c1''], trace_batches = []\<rparr>"
    unfolding step by (simp add: initial_state_def new_customer_def)
  have p2: "process_id ?cfg ?fetch [?c] (process_id ?cfg ?fetch [?c] ?s0 ''c1'') ''c1''
      = \<lparr>customers = [?sent], activityLogs = [?log, ?log], smsQueue = [], queueActive = False,
         trace_fetches = [?req, ?req], trace_sends = [''c1'', ''c1''], trace_batches = []\<rparr>"
    unfolding p1 unfolding step by simp
  have en: "enqueueSmsCustomers [''c1'', ''c1''] ?s0
      = \<lparr>customers = [?c], activityLogs = [], smsQueue = [''c1'', ''c1''], queueActive = False,
         trace_fetches = [], trace_sends = [], trace_batches = []\<rparr>"
    by (simp add: enqueueSmsCustomers_def initial_state_def)
  have run: "run_effect ?cfg ?fetch (enqueueSmsCustomers [''c1'', ''c1''] ?s0)
      = \<lparr>customers = [?sent], activityLogs = [?log, ?log], smsQueue = [], queueActive = False,
         trace_fetches = [?req, ?req], trace_sends = [''c1'', ''c1''],
         trace_batches = [[''c1'', ''c1'']]\<rparr>"
    unfolding en
    apply (simp add: run_effect_def Let_def step)
    apply (simp add: new_customer_def)
    done
  have dr: "drain ?cfg ?fetch (enqueueSmsCustomers [''c1'', ''c1''] ?s0)
      = \<lparr>customers = [?sent], activityLogs = [?log, ?log], smsQueue = [], queueActive = False,
         trace_fetches = [?req, ?req], trace_sends = [''c1'', ''c1''],
         trace_batches = [[''c1'', ''c1'']]\<rparr>"
  proof -
    let ?e = "enqueueSmsCustomers [''c1'', ''c1''] ?s0"
    have q: "\<not> (queueActive ?e \<or> smsQueue ?e = [])"
      by (simp add: en)
    have d1: "drain ?cfg ?fetch ?e = drain ?cfg ?fetch (run_effect ?cfg ?fetch ?e)"
      using q by (subst drain.simps) simp
    have d2: "drain ?cfg ?fetch s = s" if "smsQueue s = []" for s
      using that by (subst drain.simps) simp
    show ?thesis
      unfolding d1 run by (rule d2) simp
  qed
  have sk: "skipped ''c1'' [?sent]"
    by (simp add: skipped_def)
  show ?thesis
    unfolding dr unfolding p2 unfolding p1 using sk by simp
qed

section \<open>Sending from the settings page (SettingsPage, handleSendSms)\<close>

text \<open>
  The local state \<open>handleSendSms\<close> reads. \<open>buildPersonalizedMessage\<close> fills the template
  for a customer; the substitution itself is not modelled.
\<close>

record SmsForm =
  localTwilioSid :: string
  localTwilioToken :: string
  localTwilioPhone :: string
  localSmsTemplate :: string
  selectedRecipients :: "Customer list"
  buildPersonalizedMessage :: "Customer \<Rightarrow> string"

text \<open>An element of the array \<open>failures\<close>.\<close>

record Failure =
  f_name :: string
  f_phone :: string
  f_error :: string
  f_code :: "int option"

text \<open>The calls of \<open>onMarkCustomerSent\<close> and \<open>onMarkCustomerFailed\<close>, in order.\<close>

datatype Mark = MarkSent string string | MarkFailed string string

text \<open>The text the inner \<open>catch\<close> reports for an error message.\<close>

definition guidance_of :: "string \<Rightarrow> string" where
  "guidance_of rawMsg =
     (if has_infix ''Failed to fetch'' rawMsg \<or> rawMsg = ''Network error'' then
        ''Failed to reach SMS API. Check: (1) Server running and reachable at /send-sms, (2) Vite dev proxy configured to backend, (3) Correct port (default 3002), (4) No firewall/ad-block.''
      else rawMsg)"

text \<open>
  One pass of the loop over the recipients, on the counter \<open>success\<close>, the array
  \<open>failures\<close> and the calls made so far. With an answer of status 2xx whose body is not
  JSON, \<open>data\<close> is \<open>null\<close> and reading \<open>data.hint\<close> throws a TypeError, which the inner
  \<open>catch\<close> handles; \<open>typeErr\<close> is the message of that error. \<open>rawText\<close> is read only
  when the body is not JSON.
\<close>

definition send_step ::
  "SmsForm \<Rightarrow> Fetch \<Rightarrow> string option \<Rightarrow> nat \<times> Failure list \<times> Mark list \<Rightarrow> Customer
   \<Rightarrow> nat \<times> Failure list \<times> Mark list" where
  "send_step form fetch typeErr acc cust =
     (case acc of (success, failures, marks) \<Rightarrow>
      let payload = \<lparr>req_accountSid = Some (localTwilioSid form),
                       req_authToken = Some (localTwilioToken form),
                       req_from = Some (localTwilioPhone form),
                       req_to = Some (c_phone cust),
                       req_body = Some (buildPersonalizedMessage form cust),
                       req_statusCallback = None\<rparr>;
          failed = (\<lambda>msg code.
                      (success,
                       failures @ [\<lparr>f_name = c_name cust, f_phone = c_phone cust,
                                    f_error = msg, f_code = code\<rparr>],
                       marks @ [MarkFailed (c_id cust) msg]));
          caught = (\<lambda>m. failed (guidance_of (if truthy m then str m else ''Network error''))
                             None)
      in
      case fetch payload of
        FetchThrew m \<Rightarrow> caught m
      | Response st data raw \<Rightarrow>
          let rawText = (case data of None \<Rightarrow> raw | Some d \<Rightarrow> []) in
          if \<not> res_ok st then
            failed
              (case data of
                 Some d \<Rightarrow>
                   if truthy (d_error d) then str (d_error d)
                   else if rawText \<noteq> [] then rawText
                   else ''HTTP '' @ show_nat st
               | None \<Rightarrow> if rawText \<noteq> [] then rawText else ''HTTP '' @ show_nat st)
              (case data of None \<Rightarrow> None | Some d \<Rightarrow> d_code d)
          else
            (case data of
               None \<Rightarrow> caught typeErr
             | Some d \<Rightarrow>
                 if d_success d then
                   (success + 1, failures, marks @ [MarkSent (c_id cust) ''settings''])
                 else
                   failed
                     (if truthy (d_hint d) then
                        (case d_error d of None \<Rightarrow> ''undefined'' | Some e \<Rightarrow> e)
                        @ '' '' @ [CHR 0xE2, CHR 0x80, CHR 0x94] @ '' '' @ str (d_hint d)
                      else if truthy (d_error d) then str (d_error d)
                      else ''Unknown error'')
                     (d_code d)))"

text \<open>The status line set after the loop.\<close>

definition summary :: "nat \<Rightarrow> nat \<Rightarrow> Failure list \<Rightarrow> string" where
  "summary success totalCount failures =
     (case failures of
        [] \<Rightarrow> ''All '' @ show_nat success @ '' SMS sent successfully.''
      | first # others \<Rightarrow>
          let code21608 = filter (\<lambda>f. f_code f = Some 21608) failures in
          if length code21608 = length failures \<and> length failures > 0 then
            ''Sent '' @ show_nat success @ ''/'' @ show_nat totalCount @ ''. ''
            @ show_nat (length failures)
            @ '' failed because numbers are not verified for a Twilio trial. Verify them or upgrade to remove this restriction.''
          else
            ''Sent '' @ show_nat success @ ''/'' @ show_nat totalCount @ ''. Failed: ''
            @ show_nat (length failures) @ ''. First error: '' @ f_name first @ '' - ''
            @ f_error first)"

text \<open>\<open>handleSendSms\<close>: the final status line and the calls made to the two callbacks.\<close>

definition handleSendSms :: "SmsForm \<Rightarrow> Fetch \<Rightarrow> string option \<Rightarrow> string \<times> Mark list" where
  "handleSendSms form fetch typeErr =
     (if localTwilioSid form = [] \<or> localTwilioToken form = [] \<or> localTwilioPhone form = []
         \<or> length (selectedRecipients form) = 0 \<or> localSmsTemplate form = []
      then
        (''Please fill all Twilio fields, select at least one recipient, and enter a message.'',
         [])
      else
        let totalCount = length (selectedRecipients form) in
        case foldl (send_step form fetch typeErr) (0, [], []) (selectedRecipients form) of
          (success, failures, marks) \<Rightarrow> (summary success totalCount failures, marks))"

lemma send_step_count:
  "send_step form fetch typeErr (n, fs, ms) cust = (n', fs', ms') \<Longrightarrow>
   n' + length fs' = Suc (n + length fs)"
  by (auto simp: send_step_def Let_def split: FetchResult.splits option.splits if_splits)

lemma foldl_send_step_count:
  "foldl (send_step form fetch typeErr) (n, fs, ms) cs = (n', fs', ms') \<Longrightarrow>
   n' + length fs' = n + length fs + length cs"
proof (induction cs arbitrary: n fs ms)
  case Nil
  then show ?case by simp
next
  case (Cons c cs)
  obtain n1 fs1 ms1 where s: "send_step form fetch typeErr (n, fs, ms) c = (n1, fs1, ms1)"
    by (cases "send_step form fetch typeErr (n, fs, ms) c") auto
  have "n' + length fs' = n1 + length fs1 + length cs"
    using Cons.IH [of n1 fs1 ms1] Cons.prems by (simp add: s)
  then show ?case using send_step_count [OF s] by simp
qed

lemma all_filtered: "length (filter P xs) = length xs \<longleftrightarrow> (\<forall>x \<in> set xs. P x)"
proof -
  have "length (filter P xs) + length (filter (\<lambda>x. \<not> P x) xs) = length xs"
    by (rule sum_length_filter_compl)
  then have "length (filter P xs) = length xs \<longleftrightarrow> filter (\<lambda>x. \<not> P x) xs = []"
    by auto
  then show ?thesis by (simp add: filter_empty_conv)
qed

lemma has_infix_prefix: "has_infix n (n @ b)"
proof (cases "n @ b")
  case Nil
  then show ?thesis by simp
next
  case (Cons c cs)
  have "take (length n) (n @ b) = n" by simp
  then show ?thesis unfolding Cons by simp
qed

lemma has_infix_append: "has_infix n (a @ n @ b)"
proof (induction a)
  case Nil
  then show ?case by (simp add: has_infix_prefix)
next
  case (Cons c a)
  then show ?case by simp
qed


text \<open>
  C9. When the form is filled in and at least one recipient is selected, let \<open>n\<close> be the
  count of successes and \<open>fs\<close> the failures after the loop over the recipients. Every
  recipient is counted once, as a success or as a failure. Without failures the status
  line is "All n SMS sent successfully." Otherwise, when every failure carries the code
  21608, it is "Sent n/total. k failed because numbers are not verified for a Twilio
  trial. ..."; in every other case it is "Sent n/total. Failed: k. First error: " followed
  by the name and the error message of the first failure.
\<close>

theorem handleSendSms_summary:
  assumes "localTwilioSid form \<noteq> []" and "localTwilioToken form \<noteq> []"
    and "localTwilioPhone form \<noteq> []" and "selectedRecipients form \<noteq> []"
    and "localSmsTemplate form \<noteq> []"
    and "foldl (send_step form fetch typeErr) (0, [], []) (selectedRecipients form) = (n, fs, ms)"
  shows "n + length fs = length (selectedRecipients form)
         \<and> (fs = [] \<longrightarrow>
              fst (handleSendSms form fetch typeErr)
                = ''All '' @ show_nat n @ '' SMS sent successfully.'')
         \<and> (fs \<noteq> [] \<and> (\<forall>f \<in> set fs. f_code f = Some 21608) \<longrightarrow>
              fst (handleSendSms form fetch typeErr)
                = ''Sent '' @ show_nat n @ ''/'' @ show_nat (length (selectedRecipients form))
                  @ ''. '' @ show_nat (length fs)
                  @ '' failed because numbers are not verified for a Twilio trial. Verify them or upgrade to remove this restriction.'')
         \<and> (fs \<noteq> [] \<and> \<not> (\<forall>f \<in> set fs. f_code f = Some 21608) \<longrightarrow>
              fst (handleSendSms form fetch typeErr)
                = ''Sent '' @ show_nat n @ ''/'' @ show_nat (length (selectedRecipients form))
                  @ ''. Failed: '' @ show_nat (length fs) @ ''. First error: ''
                  @ f_name (hd fs) @ '' - '' @ f_error (hd fs)
              \<and> has_infix (f_name (hd fs)) (fst (handleSendSms form fetch typeErr))
              \<and> has_infix (f_error (hd fs)) (fst (handleSendSms form fetch typeErr)))"
proof -
  let ?t = "length (selectedRecipients form)"
  have st: "fst (handleSendSms form fetch typeErr) = summary n ?t fs"
    using assms by (simp add: handleSendSms_def Let_def)
  have c1: "n + length fs = ?t"
    using foldl_send_step_count [OF assms(6)] by simp
  have c2: "fst (handleSendSms form fetch typeErr)
      = ''All '' @ show_nat n @ '' SMS sent successfully.''" if "fs = []"
    using that by (simp add: st summary_def)
  have c3: "fst (handleSendSms form fetch typeErr)
      = ''Sent '' @ show_nat n @ ''/'' @ show_nat ?t @ ''. '' @ show_nat (length fs)
        @ '' failed because numbers are not verified for a Twilio trial. Verify them or upgrade to remove this restriction.''"
    if h: "fs \<noteq> [] \<and> (\<forall>f \<in> set fs. f_code f = Some 21608)"
  proof -
    obtain f r where fr: "fs = f # r" using h by (cases fs) auto
    have "length (filter (\<lambda>f. f_code f = Some 21608) fs) = length fs"
      using h by (simp add: all_filtered)
    then show ?thesis
      unfolding st summary_def Let_def fr by simp
  qed
  have c4: "fst (handleSendSms form fetch typeErr)
      = ''Sent '' @ show_nat n @ ''/'' @ show_nat ?t @ ''. Failed: '' @ show_nat (length fs)
        @ ''. First error: '' @ f_name (hd fs) @ '' - '' @ f_error (hd fs)"
    if h: "fs \<noteq> [] \<and> \<not> (\<forall>f \<in> set fs. f_code f = Some 21608)"
  proof -
    obtain f r where fr: "fs = f # r" using h by (cases fs) auto
    have "length (filter (\<lambda>f. f_code f = Some 21608) fs) \<noteq> length fs"
      using h by (simp add: all_filtered)
    then show ?thesis
      unfolding st summary_def Let_def fr by simp
  qed
  have c5: "has_infix (f_name (hd fs)) (fst (handleSendSms form fetch typeErr))"
    if h: "fs \<noteq> [] \<and> \<not> (\<forall>f \<in> set fs. f_code f = Some 21608)"
  proof -
    have "fst (handleSendSms form fetch typeErr)
        = (''Sent '' @ show_nat n @ ''/'' @ show_nat ?t @ ''. Failed: '' @ show_nat (length fs)
           @ ''. First error: '') @ f_name (hd fs) @ ('' - '' @ f_error (hd fs))"
      using c4 [OF h] by simp
    then show ?thesis by (simp only: has_infix_append)
  qed
  have c6: "has_infix (f_error (hd fs)) (fst (handleSendSms form fetch typeErr))"
    if h: "fs \<noteq> [] \<and> \<not> (\<forall>f \<in> set fs. f_code f = Some 21608)"
  proof -
    have "fst (handleSendSms form fetch typeErr)
        = (''Sent '' @ show_nat n @ ''/'' @ show_nat ?t @ ''. Failed: '' @ show_nat (length fs)
           @ ''. First error: '' @ f_name (hd fs) @ '' - '') @ f_error (hd fs) @ []"
      using c4 [OF h] by simp
    then show ?thesis by (simp only: has_infix_append)
  qed
  show ?thesis
    by (intro conjI impI;
        (rule c1 | rule c2 | rule c3 | rule c4 | rule c5 | rule c6); assumption?)
qed


text \<open>
  A provider for the examples: it refuses one destination with the code 21608 of a trial
  account and accepts every other.
\<close>

definition trial_twilio :: TwilioClient where
  "trial_twilio accountSid authToken params =
     (if p_to params = ''+919876543202''
      then Inl \<lparr>e_message = Some ''The number is unverified'', e_code = Some 21608\<rparr>
      else Inr ''SM1'')"

definition example_form :: "Customer list \<Rightarrow> SmsForm" where
  "example_form recipients =
     \<lparr>localTwilioSid = ''AC1'', localTwilioToken = ''tok'', localTwilioPhone = ''+14155550100'',
      localSmsTemplate = ''Hi [Customer Name]'', selectedRecipients = recipients,
      buildPersonalizedMessage = (\<lambda>c. ''Hi '' @ c_name c)\<rparr>"

theorem handleSendSms_summary_witness:
  "fst (handleSendSms
         (example_form [new_customer ''c1'' ''Asha'' ''9876543201'' 0])
         (server_fetch None trial_twilio) None)
     = ''All 1 SMS sent successfully.''
   \<and> fst (handleSendSms
         (example_form [new_customer ''c1'' ''Asha'' ''9876543201'' 0,
                        new_customer ''c2'' ''Bala'' ''9876543202'' 0])
         (server_fetch None trial_twilio) None)
     = ''Sent 1/2. 1 failed because numbers are not verified for a Twilio trial. Verify them or upgrade to remove this restriction.''
   \<and> fst (handleSendSms
         (example_form [new_customer ''c1'' ''Asha'' ''9876543201'' 0,
                        new_customer ''c2'' ''Bala'' ''9876543202'' 0,
                        new_customer ''c3'' ''Chitra'' ''abc'' 0])
         (server_fetch None trial_twilio) None)
     = ''Sent 1/3. Failed: 2. First error: Bala - The number is unverified''"
proof -
  let ?a = "new_customer ''c1'' ''Asha'' ''9876543201'' 0"
  let ?b = "new_customer ''c2'' ''Bala'' ''9876543202'' 0"
  let ?c = "new_customer ''c3'' ''Chitra'' ''abc'' 0"
  let ?fetch = "server_fetch None trial_twilio"
  let ?fb = "\<lparr>f_name = ''Bala'', f_phone = ''9876543202'',
              f_error = ''The number is unverified'', f_code = Some 21608\<rparr>"
  let ?fc = "\<lparr>f_name = ''Chitra'', f_phone = ''abc'',
              f_error = ''Invalid 'to' number: Unrecognized phone pattern'', f_code = None\<rparr>"
  have pre: "localTwilioSid (example_form rs) \<noteq> []" "localTwilioToken (example_form rs) \<noteq> []"
    "localTwilioPhone (example_form rs) \<noteq> []" "localSmsTemplate (example_form rs) \<noteq> []"
    "selectedRecipients (example_form rs) = rs" for rs
    by (simp_all add: example_form_def)
  have sa: "send_step (example_form rs) ?fetch None (n, fs, ms) ?a
      = (n + 1, fs, ms @ [MarkSent ''c1'' ''settings''])" for rs n fs ms
    by code_simp
  have sb: "send_step (example_form rs) ?fetch None (n, fs, ms) ?b
      = (n, fs @ [?fb], ms @ [MarkFailed ''c2'' ''The number is unverified''])" for rs n fs ms
    by code_simp
  have sc: "send_step (example_form rs) ?fetch None (n, fs, ms) ?c
      = (n, fs @ [?fc],
         ms @ [MarkFailed ''c3'' ''Invalid 'to' number: Unrecognized phone pattern''])"
    for rs n fs ms
    by code_simp
  have n: "show_nat 1 = ''1''" "show_nat 2 = ''2''" "show_nat 3 = ''3''"
    "show_nat (Suc 0) = ''1''" "show_nat (Suc (Suc 0)) = ''2''"
    "show_nat (Suc (Suc (Suc 0))) = ''3''"
    by code_simp+
  have l1: "foldl (send_step (example_form [?a]) ?fetch None) (0, [], [])
              (selectedRecipients (example_form [?a]))
      = (1, [], [MarkSent ''c1'' ''settings''])"
    by (simp add: pre sa)
  have l2: "foldl (send_step (example_form [?a, ?b]) ?fetch None) (0, [], [])
              (selectedRecipients (example_form [?a, ?b]))
      = (1, [?fb], [MarkSent ''c1'' ''settings'',
                    MarkFailed ''c2'' ''The number is unverified''])"
    by (simp add: pre sa sb)
  have l3: "foldl (send_step (example_form [?a, ?b, ?c]) ?fetch None) (0, [], [])
              (selectedRecipients (example_form [?a, ?b, ?c]))
      = (1, [?fb, ?fc], [MarkSent ''c1'' ''settings'',
                         MarkFailed ''c2'' ''The number is unverified'',
                         MarkFailed ''c3'' ''Invalid 'to' number: Unrecognized phone pattern''])"
    by (simp add: pre sa sb sc)
  have r1: "fst (handleSendSms (example_form [?a]) ?fetch None)
      = ''All 1 SMS sent successfully.''"
    using handleSendSms_summary [OF pre(1) pre(2) pre(3) _ pre(4) l1] by (simp add: pre n)
  have r2: "fst (handleSendSms (example_form [?a, ?b]) ?fetch None)
      = ''Sent 1/2. 1 failed because numbers are not verified for a Twilio trial. Verify them or upgrade to remove this restriction.''"
    using handleSendSms_summary [OF pre(1) pre(2) pre(3) _ pre(4) l2] by (simp add: pre n)
  have r3: "fst (handleSendSms (example_form [?a, ?b, ?c]) ?fetch None)
      = ''Sent 1/3. Failed: 2. First error: Bala - The number is unverified''"
    using handleSendSms_summary [OF pre(1) pre(2) pre(3) _ pre(4) l3] by (simp add: pre n)
  show ?thesis
    by (intro conjI r1 r2 r3)
qed

end
